theory Spec2Isabelle
  imports Main "HOL-Library.Sublist"
begin

section \<open>Strings and the library functions the program calls\<close>

text \<open>
  A Python \<open>str\<close> is a sequence of Unicode code points; it is modelled as a list of
  natural numbers, one per code point.  The Japanese literals of the source are written
  out code point by code point.  A Python \<open>bytes\<close> value is a list of 8-bit characters,
  which is what \<^typ>\<open>string\<close> is.
\<close>

type_synonym pystr = "nat list"

text \<open>\<open>chr\<close> on the integers the program passes to it (65 to 90).\<close>

definition chr :: "int \<Rightarrow> nat" where
  "chr i = nat i"

text \<open>
  \<open>str.strip()\<close> without argument removes leading and trailing white space.  The code
  points CPython counts as white space (\<open>str.isspace\<close>) are these.
\<close>

definition isspace :: "nat \<Rightarrow> bool" where
  "isspace c =
     ((9 \<le> c \<and> c \<le> 13) \<or> (28 \<le> c \<and> c \<le> 32) \<or> c = 0x85 \<or> c = 0xA0 \<or> c = 0x1680
      \<or> (0x2000 \<le> c \<and> c \<le> 0x200A) \<or> c = 0x2028 \<or> c = 0x2029 \<or> c = 0x202F
      \<or> c = 0x205F \<or> c = 0x3000)"

definition strip :: "pystr \<Rightarrow> pystr" where
  "strip s = rev (dropWhile isspace (rev (dropWhile isspace s)))"

text \<open>
  \<open>str.lower()\<close> and \<open>unicodedata.normalize("NFKC", _)\<close> are driven by the tables of
  the Unicode character database, which are not part of the program.  The program is
  modelled over any pair of such functions; the general theorems hold for every pair.
\<close>

record unicode_lib =
  str_lower :: "pystr \<Rightarrow> pystr"
  nfkc :: "pystr \<Rightarrow> pystr"

text \<open>
  For the concrete examples, \<open>py\<close> gives the two functions on a fragment of Unicode:
  the ASCII letters and the full-width forms U+FF01 to U+FF5E (folded to ASCII by
  NFKC), the ideographic space U+3000 (folded to a space), and the diaeresis U+00A8,
  whose compatibility decomposition is a space followed by the combining diaeresis
  U+0308.  Every other code point is left unchanged; that is what Python does for the
  kana and ideographs of the program's literals, and for U+0308 where no base letter
  precedes it.  \<open>py\<close> is evaluated on such strings only.
\<close>

definition lower_cp :: "nat \<Rightarrow> nat" where
  "lower_cp c = (if 65 \<le> c \<and> c \<le> 90 then c + 32 else c)"

definition nfkc_cp :: "nat \<Rightarrow> pystr" where
  "nfkc_cp c =
     (if 0xFF01 \<le> c \<and> c \<le> 0xFF5E then [c - 0xFEE0]
      else if c = 0x3000 then [0x20]
      else if c = 0xA8 then [0x20, 0x308]
      else [c])"

definition py :: unicode_lib where
  "py = \<lparr> str_lower = map lower_cp, nfkc = (\<lambda>s. concat (map nfkc_cp s)) \<rparr>"

definition is_ascii :: "pystr \<Rightarrow> bool" where
  "is_ascii s = list_all (\<lambda>c. c < 128) s"

text \<open>
  Strings of ASCII characters, full-width forms U+FF01 to U+FF5E and ideographic
  spaces, and the ASCII character that such a code point stands for.
\<close>

definition narrow_or_wide :: "pystr \<Rightarrow> bool" where
  "narrow_or_wide s = list_all (\<lambda>c. c < 128 \<or> (0xFF01 \<le> c \<and> c \<le> 0xFF5E) \<or> c = 0x3000) s"

definition narrow :: "nat \<Rightarrow> nat" where
  "narrow c =
     (if 0xFF01 \<le> c \<and> c \<le> 0xFF5E then c - 0xFEE0 else if c = 0x3000 then 0x20 else c)"

text \<open>\<open>sep.join(items)\<close>.\<close>

fun join :: "pystr \<Rightarrow> pystr list \<Rightarrow> pystr" where
  "join sep [] = []"
| "join sep [x] = x"
| "join sep (x # y # ys) = x @ sep @ join sep (y # ys)"

text \<open>\<open>str(n)\<close> for a non-negative integer: its decimal digits.\<close>

fun str_nat :: "nat \<Rightarrow> pystr" where
  "str_nat n = (if n < 10 then [48 + n] else str_nat (n div 10) @ [48 + n mod 10])"

declare str_nat.simps [simp del]

section \<open>Column letters\<close>

text \<open>
  \<^verbatim>\<open>
  def col_index_to_letter(index: int) -> str:
      result = ""
      index += 1
      while index > 0:
          index, remainder = divmod(index - 1, 26)
          result = chr(65 + remainder) + result
      return result
  \<close>
  The \<open>while\<close> loop is \<open>col_loop\<close>, on the pair of the loop's variables; Python's
  \<open>divmod\<close> on a non-negative dividend and 26 is \<open>div\<close> and \<open>mod\<close>.
\<close>

function col_loop :: "int \<Rightarrow> pystr \<Rightarrow> pystr" where
  "col_loop index result =
     (if index > 0
      then col_loop ((index - 1) div 26) (chr (65 + (index - 1) mod 26) # result)
      else result)"
  by pat_completeness auto
termination
  by (relation "measure (\<lambda>(index, result). nat index)") auto

declare col_loop.simps [simp del]

definition col_index_to_letter :: "int \<Rightarrow> pystr" where
  "col_index_to_letter index = col_loop (index + 1) []"

text \<open>The value of a letter string in bijective base 26 (\<open>A\<close> is the digit 1).\<close>

definition letters_value :: "pystr \<Rightarrow> int" where
  "letters_value s = foldl (\<lambda>a c. 26 * a + (int c - 64)) 0 s"

definition is_letters :: "pystr \<Rightarrow> bool" where
  "is_letters s = (s \<noteq> [] \<and> set s \<subseteq> {65..90})"

section \<open>Configuration\<close>

text \<open>
  \<^verbatim>\<open>EMAIL_COLUMN_PATTERNS = [<meeruadoresu>, <meado>, e<meeru>, "email", "e-mail", "mail"]\<close>,
  \<^verbatim>\<open>UTAGE_EMAIL_COLUMN = <meeruadoresu>\<close> (katakana, "mail address") and
  \<^verbatim>\<open>UTAGE_ROUTE_COLUMN = <touroku keiro>\<close> (kanji, "registration route").
\<close>

definition UTAGE_EMAIL_COLUMN :: pystr where
  "UTAGE_EMAIL_COLUMN = [0x30E1, 0x30FC, 0x30EB, 0x30A2, 0x30C9, 0x30EC, 0x30B9]"

definition UTAGE_ROUTE_COLUMN :: pystr where
  "UTAGE_ROUTE_COLUMN = [0x767B, 0x9332, 0x7D4C, 0x8DEF]"

definition EMAIL_COLUMN_PATTERNS :: "pystr list" where
  "EMAIL_COLUMN_PATTERNS =
     [[0x30E1, 0x30FC, 0x30EB, 0x30A2, 0x30C9, 0x30EC, 0x30B9],
      [0x30E1, 0x30A2, 0x30C9],
      [0x65, 0x30E1, 0x30FC, 0x30EB],
      [0x65, 0x6D, 0x61, 0x69, 0x6C],
      [0x65, 0x2D, 0x6D, 0x61, 0x69, 0x6C],
      [0x6D, 0x61, 0x69, 0x6C]]"

section \<open>Spreadsheet ID extraction\<close>

text \<open>
  \<^verbatim>\<open>
  def extract_spreadsheet_id(url_or_id: str) -> str:
      patterns = [
          r"https://docs\.google\.com/spreadsheets/d/([a-zA-Z0-9_-]+)",
          r"^([a-zA-Z0-9_-]+)$",
      ]
      for pattern in patterns:
          match = re.search(pattern, url_or_id)
          if match:
              return match.group(1)
      return url_or_id
  \<close>
  The two regular expressions are modelled by the matchers that \<open>re.search\<close> runs for
  them.  The class \<open>[a-zA-Z0-9_-]\<close> is \<open>id_char\<close>.
\<close>

definition id_char :: "nat \<Rightarrow> bool" where
  "id_char c =
     ((97 \<le> c \<and> c \<le> 122) \<or> (65 \<le> c \<and> c \<le> 90) \<or> (48 \<le> c \<and> c \<le> 57) \<or> c = 95 \<or> c = 45)"

text \<open>The literal \<^verbatim>\<open>https://docs.google.com/spreadsheets/d/\<close> of the first pattern.\<close>

definition URL_PREFIX :: pystr where
  "URL_PREFIX =
     [104, 116, 116, 112, 115, 58, 47, 47, 100, 111, 99, 115, 46, 103, 111, 111, 103, 108,
      101, 46, 99, 111, 109, 47, 115, 112, 114, 101, 97, 100, 115, 104, 101, 101, 116, 115,
      47, 100, 47]"

text \<open>
  The first pattern tried at the start of \<open>s\<close>: the literal, then the longest run of
  identifier characters, which must not be empty.
\<close>

definition match_url_here :: "pystr \<Rightarrow> pystr option" where
  "match_url_here s =
     (if prefix URL_PREFIX s \<and> takeWhile id_char (drop (length URL_PREFIX) s) \<noteq> []
      then Some (takeWhile id_char (drop (length URL_PREFIX) s))
      else None)"

text \<open>\<open>re.search\<close> tries every start position from the left and keeps the first match.\<close>

fun search_url :: "pystr \<Rightarrow> pystr option" where
  "search_url [] = None"
| "search_url (c # cs) =
     (case match_url_here (c # cs) of
        Some g \<Rightarrow> Some g
      | None \<Rightarrow> search_url cs)"

text \<open>
  The second pattern is anchored at both ends.  In Python \<open>$\<close> matches at the end of the
  string and also just before a newline that ends the string, so the run of identifier
  characters may be followed by one final line feed, which is not part of the group.
\<close>

definition search_token :: "pystr \<Rightarrow> pystr option" where
  "search_token s =
     (if takeWhile id_char s \<noteq> [] \<and> (dropWhile id_char s = [] \<or> dropWhile id_char s = [10])
      then Some (takeWhile id_char s)
      else None)"

definition extract_spreadsheet_id :: "pystr \<Rightarrow> pystr" where
  "extract_spreadsheet_id url_or_id =
     (case search_url url_or_id of
        Some g \<Rightarrow> g
      | None \<Rightarrow>
          (case search_token url_or_id of
             Some g \<Rightarrow> g
           | None \<Rightarrow> url_or_id))"

text \<open>
  What the two patterns mean, stated on the string itself: the first pattern matches
  \<open>s\<close> at offset \<open>length pre\<close> with group \<open>g\<close>; the second matches \<open>s\<close> with group \<open>g\<close>.
\<close>

definition url_match :: "pystr \<Rightarrow> pystr \<Rightarrow> pystr \<Rightarrow> bool" where
  "url_match s pre g =
     (\<exists>rest. s = pre @ URL_PREFIX @ g @ rest \<and> g \<noteq> [] \<and> list_all id_char g
        \<and> (rest = [] \<or> (rest \<noteq> [] \<and> \<not> id_char (hd rest))))"

definition token_match :: "pystr \<Rightarrow> pystr \<Rightarrow> bool" where
  "token_match s g = (g \<noteq> [] \<and> list_all id_char g \<and> (s = g \<or> s = g @ [10]))"

section \<open>Email normalisation\<close>

text \<open>
  \<^verbatim>\<open>
  def normalize_email(email: str) -> str:
      if not email:
          return ""
      result = email.strip()
      result = unicodedata.normalize("NFKC", result)
      result = result.lower()
      return result
  \<close>
\<close>

definition normalize_email :: "unicode_lib \<Rightarrow> pystr \<Rightarrow> pystr" where
  "normalize_email L email =
     (if email = [] then []
      else str_lower L (nfkc L (strip email)))"

section \<open>Header column detection\<close>

text \<open>
  \<^verbatim>\<open>
  def find_email_column(header_row: list) -> int:
      for i, col_name in enumerate(header_row):
          col_lower = str(col_name).lower().strip()
          for pattern in EMAIL_COLUMN_PATTERNS:
              if pattern.lower() in col_lower or col_lower in pattern.lower():
                  return i
      return -1
  \<close>
  The header cells are strings already, so \<open>str(col_name)\<close> is \<open>col_name\<close>.  Python's
  \<open>a in b\<close> on strings is \<^const>\<open>sublist\<close>.  \<open>alias_hit\<close> is the inner loop: some pattern
  passes the test; \<open>find_from i\<close> is the outer loop from index \<open>i\<close> on.
\<close>

definition alias_hit :: "unicode_lib \<Rightarrow> pystr \<Rightarrow> bool" where
  "alias_hit L col_name =
     (let col_lower = strip (str_lower L col_name)
      in list_ex (\<lambda>pattern. sublist (str_lower L pattern) col_lower
                            \<or> sublist col_lower (str_lower L pattern))
           EMAIL_COLUMN_PATTERNS)"

fun find_from :: "unicode_lib \<Rightarrow> int \<Rightarrow> pystr list \<Rightarrow> int" where
  "find_from L i [] = -1"
| "find_from L i (col_name # rest) =
     (if alias_hit L col_name then i else find_from L (i + 1) rest)"

definition find_email_column :: "unicode_lib \<Rightarrow> pystr list \<Rightarrow> int" where
  "find_email_column L header_row = find_from L 0 header_row"

text \<open>
  The test as the specification words it, on the lowercased name alone (no trimming):
  some alias is contained in the lowercased header name, or the lowercased header name
  is contained in some alias.
\<close>

definition spec_alias_hit :: "unicode_lib \<Rightarrow> pystr \<Rightarrow> bool" where
  "spec_alias_hit L col_name =
     list_ex (\<lambda>pattern. sublist (str_lower L pattern) (str_lower L col_name)
                          \<or> sublist (str_lower L col_name) (str_lower L pattern))
       EMAIL_COLUMN_PATTERNS"

section \<open>The reconciliation procedure\<close>

subsection \<open>What the program calls outside itself\<close>

text \<open>
  \<open>pandas.read_csv\<close> returns a table with named columns.  A cell is text, the missing
  value \<open>NaN\<close>, or a number or truth value that pandas inferred; the program only ever
  applies \<open>str\<close> to a cell, so a number is carried as the text \<open>str\<close> gives for it.
  \<open>str(NaN)\<close> is \<^verbatim>\<open>"nan"\<close>.
\<close>

datatype cell = Str pystr | NaN | Number pystr

definition py_str :: "cell \<Rightarrow> pystr" where
  "py_str v = (case v of Str s \<Rightarrow> s | NaN \<Rightarrow> [0x6E, 0x61, 0x6E] | Number t \<Rightarrow> t)"

text \<open>
  How \<open>read_csv\<close> (with its default arguments) reads one text field of a column of
  strings: an empty field is a missing value.  (The other spellings pandas reads as
  missing, such as \<^verbatim>\<open>NA\<close> or \<^verbatim>\<open>null\<close>, are left out.)
\<close>

definition read_field :: "pystr \<Rightarrow> cell" where
  "read_field s = (if s = [] then NaN else Str s)"

record dataframe =
  columns :: "pystr list"
  frame_rows :: "cell list list"

text \<open>\<open>row.get(label, default)\<close> on a row of the table: the cell under that column.\<close>

definition row_get :: "pystr list \<Rightarrow> cell list \<Rightarrow> pystr \<Rightarrow> cell \<Rightarrow> cell" where
  "row_get cols row label dflt =
     (case map_of (zip cols row) label of Some v \<Rightarrow> v | None \<Rightarrow> dflt)"

text \<open>
  An exception is a value.  \<open>Exception msg\<close> is one the program raises itself, with its
  message; the others come out of a library call.
\<close>

datatype error =
  Exception pystr | UnicodeDecodeError | UnicodeEncodeError | IndexError | LibraryError

datatype encoding = UTF8 | CP932

datatype csv_read = Frame dataframe | DecodeFailure | ParseFailure

type_synonym update = "pystr \<times> pystr list list"

text \<open>
  The outside world of one request: the Unicode tables, the environment variable, whether
  the credential text is accepted (\<open>json.loads\<close> and
  \<open>Credentials.from_service_account_info\<close> both return), what
  \<open>client.open_by_key(id).sheet1.get_all_values()\<close> returns for given credentials and
  spreadsheet id (\<open>None\<close> when one of these calls raises), what \<open>pd.read_csv\<close> returns for
  the uploaded bytes under an encoding, and whether a \<open>worksheet.update\<close> call raises.
  The temporary file that carries the bytes to \<open>read_csv\<close> is written and removed within
  the call and is not modelled.
\<close>

record world =
  unicode :: unicode_lib
  GOOGLE_CREDENTIALS :: "pystr option"
  credentials_accepted :: "pystr \<Rightarrow> bool"
  get_all_values :: "pystr \<Rightarrow> pystr \<Rightarrow> pystr list list option"
  read_csv :: "string \<Rightarrow> encoding \<Rightarrow> csv_read"
  update_fails :: "pystr \<Rightarrow> pystr list list \<Rightarrow> bool"

subsection \<open>Messages and labels\<close>

text \<open>The literal \<^verbatim>\<open>UTAGE<touroku keiro>\<close>, the header of the output column.\<close>

definition UTAGE_HEADER :: pystr where
  "UTAGE_HEADER = [0x55, 0x54, 0x41, 0x47, 0x45, 0x767B, 0x9332, 0x7D4C, 0x8DEF]"

text \<open>The messages of the program's own exceptions, in source order.\<close>

definition MSG_NO_CREDENTIALS :: pystr where
  "MSG_NO_CREDENTIALS =
     [0x47, 0x4F, 0x4F, 0x47, 0x4C, 0x45, 0x5F, 0x43, 0x52, 0x45, 0x44, 0x45, 0x4E, 0x54, 0x49,
      0x41, 0x4C, 0x53, 0x74B0, 0x5883, 0x5909, 0x6570, 0x304C, 0x8A2D, 0x5B9A, 0x3055, 0x308C,
      0x3066, 0x3044, 0x307E, 0x305B, 0x3093]"

definition MSG_NO_DATA :: pystr where
  "MSG_NO_DATA =
     [0x30B9, 0x30D7, 0x30EC, 0x30C3, 0x30C9, 0x30B7, 0x30FC, 0x30C8, 0x306B, 0x30C7, 0x30FC,
      0x30BF, 0x304C, 0x3042, 0x308A, 0x307E, 0x305B, 0x3093]"

definition MSG_NO_EMAIL_COLUMN :: pystr where
  "MSG_NO_EMAIL_COLUMN =
     [0x30E1, 0x30FC, 0x30EB, 0x30A2, 0x30C9, 0x30EC, 0x30B9, 0x5217, 0x304C, 0x898B, 0x3064,
      0x304B, 0x308A, 0x307E, 0x305B, 0x3093]"

definition MSG_NO_EMAILS :: pystr where
  "MSG_NO_EMAILS =
     [0x30E1, 0x30FC, 0x30EB, 0x30A2, 0x30C9, 0x30EC, 0x30B9, 0x304C, 0x898B, 0x3064, 0x304B,
      0x308A, 0x307E, 0x305B, 0x3093]"

text \<open>
  The f-string \<^verbatim>\<open>f"CSV<ni><open bracket>{column}<close bracket><retsu ga arimasen>"\<close>:
  "the CSV has no column <column>".
\<close>

definition missing_column_message :: "pystr \<Rightarrow> pystr" where
  "missing_column_message column =
     [0x43, 0x53, 0x56, 0x306B, 0x300C] @ column
       @ [0x300D, 0x5217, 0x304C, 0x3042, 0x308A, 0x307E, 0x305B, 0x3093]"

subsection \<open>\<open>get_credentials\<close>\<close>

text \<open>
  \<^verbatim>\<open>
  def get_credentials():
      creds_json = os.environ.get("GOOGLE_CREDENTIALS")
      if not creds_json:
          raise Exception(<message>)
      creds_info = json.loads(creds_json)
      return service_account.Credentials.from_service_account_info(creds_info, scopes=SCOPES)
  \<close>
\<close>

definition get_credentials :: "world \<Rightarrow> error + pystr" where
  "get_credentials W =
     (case GOOGLE_CREDENTIALS W of
        None \<Rightarrow> Inl (Exception MSG_NO_CREDENTIALS)
      | Some creds_json \<Rightarrow>
          if creds_json = [] then Inl (Exception MSG_NO_CREDENTIALS)
          else if credentials_accepted W creds_json then Inr creds_json
          else Inl LibraryError)"

subsection \<open>\<open>process_data\<close>, first part: reading the spreadsheet\<close>

text \<open>
  Source lines 79 to 108: the spreadsheet id, the credentials, all values of the first
  sheet, the email column of the header row, and the non-empty email cells of the data
  rows, in row order.
  \<^verbatim>\<open>
      emails = []
      for row in all_data[1:]:
          if email_col_index < len(row) and row[email_col_index]:
              emails.append(row[email_col_index])
  \<close>
\<close>

definition has_email :: "int \<Rightarrow> pystr list \<Rightarrow> bool" where
  "has_email email_col_index row =
     (email_col_index < int (length row) \<and> row ! nat email_col_index \<noteq> [])"

definition collect_emails :: "int \<Rightarrow> pystr list list \<Rightarrow> pystr list" where
  "collect_emails email_col_index data_rows =
     map (\<lambda>row. row ! nat email_col_index) (filter (has_email email_col_index) data_rows)"

definition read_emails ::
  "world \<Rightarrow> pystr \<Rightarrow> error + (pystr list \<times> pystr list list \<times> int \<times> pystr list)" where
  "read_emails W spreadsheet_url =
     (let spreadsheet_id = extract_spreadsheet_id spreadsheet_url in
      case get_credentials W of
        Inl e \<Rightarrow> Inl e
      | Inr credentials \<Rightarrow>
          (case get_all_values W credentials spreadsheet_id of
             None \<Rightarrow> Inl LibraryError
           | Some [] \<Rightarrow> Inl (Exception MSG_NO_DATA)
           | Some (header_row # data_rows) \<Rightarrow>
               (let email_col_index = find_email_column (unicode W) header_row in
                if email_col_index < 0 then Inl (Exception MSG_NO_EMAIL_COLUMN)
                else let emails = collect_emails email_col_index data_rows in
                  if emails = [] then Inl (Exception MSG_NO_EMAILS)
                  else Inr (header_row, data_rows, email_col_index, emails))))"

subsection \<open>\<open>process_data\<close>, second part: reading the CSV\<close>

text \<open>
  \<^verbatim>\<open>
          try:
              csv_data = pd.read_csv(tmp_path, encoding="utf-8")
          except UnicodeDecodeError:
              csv_data = pd.read_csv(tmp_path, encoding="cp932")
          if UTAGE_EMAIL_COLUMN not in csv_data.columns:
              raise Exception(f"...{UTAGE_EMAIL_COLUMN}...")
          if UTAGE_ROUTE_COLUMN not in csv_data.columns:
              raise Exception(f"...{UTAGE_ROUTE_COLUMN}...")
  \<close>
\<close>

definition decode_csv :: "world \<Rightarrow> string \<Rightarrow> csv_read" where
  "decode_csv W csv_content =
     (case read_csv W csv_content UTF8 of
        DecodeFailure \<Rightarrow> read_csv W csv_content CP932
      | r \<Rightarrow> r)"

definition load_csv :: "world \<Rightarrow> string \<Rightarrow> error + dataframe" where
  "load_csv W csv_content =
     (case decode_csv W csv_content of
        DecodeFailure \<Rightarrow> Inl UnicodeDecodeError
      | ParseFailure \<Rightarrow> Inl LibraryError
      | Frame csv_data \<Rightarrow>
          if UTAGE_EMAIL_COLUMN \<notin> set (columns csv_data)
          then Inl (Exception (missing_column_message UTAGE_EMAIL_COLUMN))
          else if UTAGE_ROUTE_COLUMN \<notin> set (columns csv_data)
          then Inl (Exception (missing_column_message UTAGE_ROUTE_COLUMN))
          else Inr csv_data)"

subsection \<open>\<open>process_data\<close>, third part: index, matching and write-back\<close>

text \<open>
  \<^verbatim>\<open>
          email_to_routes = {}
          for _, row in csv_data.iterrows():
              email = str(row.get(UTAGE_EMAIL_COLUMN, ""))
              route = str(row.get(UTAGE_ROUTE_COLUMN, ""))
              if not email:
                  continue
              normalized = normalize_email(email)
              if normalized not in email_to_routes:
                  email_to_routes[normalized] = []
              if route not in email_to_routes[normalized]:
                  email_to_routes[normalized].append(route)
  \<close>
  The dictionary is a map; the loop is \<open>build_index\<close>, with the dictionary as
  accumulator.
\<close>

fun build_index ::
  "unicode_lib \<Rightarrow> pystr list \<Rightarrow> cell list list \<Rightarrow> (pystr \<rightharpoonup> pystr list) \<Rightarrow> (pystr \<rightharpoonup> pystr list)" where
  "build_index L cols [] email_to_routes = email_to_routes"
| "build_index L cols (row # rest) email_to_routes =
     (let email = py_str (row_get cols row UTAGE_EMAIL_COLUMN (Str []));
          route = py_str (row_get cols row UTAGE_ROUTE_COLUMN (Str []))
      in if email = [] then build_index L cols rest email_to_routes
         else
           let normalized = normalize_email L email;
               routes = (case email_to_routes normalized of None \<Rightarrow> [] | Some rs \<Rightarrow> rs)
           in build_index L cols rest
                (email_to_routes(normalized \<mapsto>
                   (if route \<in> set routes then routes else routes @ [route]))))"

text \<open>
  \<^verbatim>\<open>
          results = []
          not_found_emails = []
          for email in emails:
              normalized = normalize_email(email)
              routes = email_to_routes.get(normalized, [])
              if routes:
                  results.append({"email": email, "routes": routes, "found": True})
              else:
                  results.append({"email": email, "routes": [], "found": False})
                  not_found_emails.append(email)
  \<close>
  The loop fills two lists; \<open>match_results\<close> is the first and \<open>unmatched\<close> the second.
\<close>

record match_result =
  r_email :: pystr
  r_routes :: "pystr list"
  r_found :: bool

definition lookup_routes :: "unicode_lib \<Rightarrow> (pystr \<rightharpoonup> pystr list) \<Rightarrow> pystr \<Rightarrow> pystr list" where
  "lookup_routes L email_to_routes email =
     (case email_to_routes (normalize_email L email) of None \<Rightarrow> [] | Some routes \<Rightarrow> routes)"

definition match_results ::
  "unicode_lib \<Rightarrow> (pystr \<rightharpoonup> pystr list) \<Rightarrow> pystr list \<Rightarrow> match_result list" where
  "match_results L email_to_routes emails =
     map (\<lambda>email.
            let routes = lookup_routes L email_to_routes email
            in if routes \<noteq> [] then \<lparr> r_email = email, r_routes = routes, r_found = True \<rparr>
               else \<lparr> r_email = email, r_routes = [], r_found = False \<rparr>)
       emails"

definition unmatched :: "unicode_lib \<Rightarrow> (pystr \<rightharpoonup> pystr list) \<Rightarrow> pystr list \<Rightarrow> pystr list" where
  "unmatched L email_to_routes emails =
     filter (\<lambda>email. lookup_routes L email_to_routes email = []) emails"

text \<open>
  \<^verbatim>\<open>
          existing_route_col = None
          for i, col_name in enumerate(header_row):
              if col_name == <UTAGE header>:
                  existing_route_col = i
                  break
          if existing_route_col is not None:
              route_col_index = existing_route_col
          else:
              route_col_index = len(header_row)
  \<close>
\<close>

fun existing_route_col :: "nat \<Rightarrow> pystr list \<Rightarrow> nat option" where
  "existing_route_col i [] = None"
| "existing_route_col i (col_name # rest) =
     (if col_name = UTAGE_HEADER then Some i else existing_route_col (i + 1) rest)"

definition route_col_index :: "pystr list \<Rightarrow> nat" where
  "route_col_index header_row =
     (case existing_route_col 0 header_row of
        Some existing \<Rightarrow> existing
      | None \<Rightarrow> length header_row)"

text \<open>
  \<^verbatim>\<open>
          result_map = {}
          for r in results:
              normalized = normalize_email(r["email"])
              result_map[normalized] = ", ".join(r["routes"])
          values_to_write = []
          for row in all_data[1:]:
              if email_col_index < len(row):
                  email = row[email_col_index]
                  normalized = normalize_email(email)
                  route = result_map.get(normalized, "")
                  values_to_write.append([route])
              else:
                  values_to_write.append([""])
  \<close>
\<close>

definition result_map :: "unicode_lib \<Rightarrow> match_result list \<Rightarrow> (pystr \<rightharpoonup> pystr)" where
  "result_map L results =
     fold (\<lambda>r m. m(normalize_email L (r_email r) \<mapsto> join [0x2C, 0x20] (r_routes r)))
       results Map.empty"

definition values_to_write ::
  "unicode_lib \<Rightarrow> int \<Rightarrow> (pystr \<rightharpoonup> pystr) \<Rightarrow> pystr list list \<Rightarrow> pystr list list" where
  "values_to_write L email_col_index rmap data_rows =
     map (\<lambda>row.
            if email_col_index < int (length row)
            then [case rmap (normalize_email L (row ! nat email_col_index)) of
                    None \<Rightarrow> []
                  | Some route \<Rightarrow> route]
            else [[]])
       data_rows"

text \<open>The dictionary that \<open>process_data\<close> returns.\<close>

record result =
  success :: bool
  total_count :: int
  success_count :: int
  not_found_count :: int
  not_found_emails :: "pystr list"

text \<open>
  Source lines 128 to 198.  The two \<open>worksheet.update\<close> calls are made in this order: the
  header cell \<^verbatim>\<open>f"{route_col_letter}1"\<close>, then, when there is a data row, the range
  \<^verbatim>\<open>f"{route_col_letter}2:{route_col_letter}{len(values_to_write) + 1}"\<close>.  The second
  component of the outcome lists the updates that were carried out.
\<close>

definition write_back ::
  "world \<Rightarrow> pystr list \<Rightarrow> pystr list list \<Rightarrow> int \<Rightarrow> pystr list \<Rightarrow> dataframe
     \<Rightarrow> (error + result) \<times> update list" where
  "write_back W header_row data_rows email_col_index emails csv_data =
     (let L = unicode W;
          email_to_routes = build_index L (columns csv_data) (frame_rows csv_data) Map.empty;
          results = match_results L email_to_routes emails;
          not_found = unmatched L email_to_routes emails;
          route_col_letter = col_index_to_letter (int (route_col_index header_row));
          header_cell = route_col_letter @ [0x31];
          vals = values_to_write L email_col_index (result_map L results) data_rows;
          cell_range = route_col_letter @ [0x32, 0x3A] @ route_col_letter
                         @ str_nat (length vals + 1);
          response = \<lparr> success = True,
                       total_count = int (length emails),
                       success_count = int (length emails) - int (length not_found),
                       not_found_count = int (length not_found),
                       not_found_emails = take 50 not_found \<rparr>
      in if update_fails W header_cell [[UTAGE_HEADER]] then (Inl LibraryError, [])
         else if vals = [] then (Inr response, [(header_cell, [[UTAGE_HEADER]])])
         else if update_fails W cell_range vals
         then (Inl LibraryError, [(header_cell, [[UTAGE_HEADER]])])
         else (Inr response, [(header_cell, [[UTAGE_HEADER]]), (cell_range, vals)]))"

subsection \<open>\<open>process_data\<close>\<close>

text \<open>
  The outcome is the returned dictionary or the exception raised, together with the
  spreadsheet updates carried out before the return or the raise.
\<close>

definition process_data :: "world \<Rightarrow> pystr \<Rightarrow> string \<Rightarrow> (error + result) \<times> update list" where
  "process_data W spreadsheet_url csv_content =
     (case read_emails W spreadsheet_url of
        Inl e \<Rightarrow> (Inl e, [])
      | Inr (header_row, data_rows, email_col_index, emails) \<Rightarrow>
          (case load_csv W csv_content of
             Inl e \<Rightarrow> (Inl e, [])
           | Inr csv_data \<Rightarrow>
               write_back W header_row data_rows email_col_index emails csv_data))"

section \<open>A concrete world for the examples\<close>

text \<open>
  A world in which the credentials are set and accepted, the spreadsheet with key
  \<^verbatim>\<open>ABC123\<close> holds \<open>sheet\<close>, every upload parses to \<open>frame\<close>, and no update fails.
\<close>

definition example_world :: "pystr list list \<Rightarrow> dataframe \<Rightarrow> world" where
  "example_world sheet frame =
     \<lparr> unicode = py,
       GOOGLE_CREDENTIALS = Some [0x7B, 0x7D],
       credentials_accepted = (\<lambda>creds_json. True),
       get_all_values =
         (\<lambda>credentials key. if key = [0x41, 0x42, 0x43, 0x31, 0x32, 0x33] then Some sheet else None),
       read_csv = (\<lambda>content enc. Frame frame),
       update_fails = (\<lambda>cells vals. False) \<rparr>"

text \<open>
  The spreadsheet and the CSV of the end-to-end scenario: header \<^verbatim>\<open>[<shimei>, <meeruadoresu>]\<close>
  ("name", "mail address"), rows \<^verbatim>\<open>["Taro", "a@x.com"]\<close> and \<^verbatim>\<open>["Hanako", "b@x.com"]\<close>;
  CSV rows \<^verbatim>\<open>("A@X.COM", "Route1")\<close>, \<^verbatim>\<open>("a@x.com", "Route2")\<close>, \<^verbatim>\<open>("c@x.com", "Route3")\<close>.
\<close>

definition scenario_sheet :: "pystr list list" where
  "scenario_sheet =
     [[[0x6C0F, 0x540D], [0x30E1, 0x30FC, 0x30EB, 0x30A2, 0x30C9, 0x30EC, 0x30B9]],
      [[0x54, 0x61, 0x72, 0x6F], [0x61, 0x40, 0x78, 0x2E, 0x63, 0x6F, 0x6D]],
      [[0x48, 0x61, 0x6E, 0x61, 0x6B, 0x6F], [0x62, 0x40, 0x78, 0x2E, 0x63, 0x6F, 0x6D]]]"

definition scenario_frame :: dataframe where
  "scenario_frame =
     \<lparr> columns = [UTAGE_EMAIL_COLUMN, UTAGE_ROUTE_COLUMN],
       frame_rows =
         [[Str [0x41, 0x40, 0x58, 0x2E, 0x43, 0x4F, 0x4D], Str [0x52, 0x6F, 0x75, 0x74, 0x65, 0x31]],
          [Str [0x61, 0x40, 0x78, 0x2E, 0x63, 0x6F, 0x6D], Str [0x52, 0x6F, 0x75, 0x74, 0x65, 0x32]],
          [Str [0x63, 0x40, 0x78, 0x2E, 0x63, 0x6F, 0x6D], Str [0x52, 0x6F, 0x75, 0x74, 0x65, 0x33]]] \<rparr>"

definition scenario_result :: result where
  "scenario_result =
     \<lparr> success = True, total_count = 2, success_count = 1, not_found_count = 1,
       not_found_emails = [[0x62, 0x40, 0x78, 0x2E, 0x63, 0x6F, 0x6D]] \<rparr>"

text \<open>
  The updates of the scenario: \<^verbatim>\<open>update("C1", [[<UTAGE header>]])\<close>, then
  \<^verbatim>\<open>update("C2:C3", [["Route1, Route2"], [""]])\<close>.
\<close>

definition scenario_updates :: "update list" where
  "scenario_updates =
     [([0x43, 0x31], [[UTAGE_HEADER]]),
      ([0x43, 0x32, 0x3A, 0x43, 0x33],
       [[[0x52, 0x6F, 0x75, 0x74, 0x65, 0x31, 0x2C, 0x20, 0x52, 0x6F, 0x75, 0x74, 0x65, 0x32]], [[]]])]"


text \<open>
  A sheet with the header \<^verbatim>\<open>["email"]\<close> and \<open>n\<close> rows \<^verbatim>\<open>["b@x.com"]\<close>, an address the
  scenario's CSV does not list.
\<close>

definition unlisted_sheet :: "nat \<Rightarrow> pystr list list" where
  "unlisted_sheet n =
     [[0x65, 0x6D, 0x61, 0x69, 0x6C]] # replicate n [[0x62, 0x40, 0x78, 0x2E, 0x63, 0x6F, 0x6D]]"

text \<open>A CSV that has the email column and no route column.\<close>

definition frame_without_route :: dataframe where
  "frame_without_route =
     \<lparr> columns = [UTAGE_EMAIL_COLUMN],
       frame_rows = [[Str [0x61, 0x40, 0x78, 0x2E, 0x63, 0x6F, 0x6D]]] \<rparr>"

section \<open>The POST handler\<close>

subsection \<open>Library functions on sequences\<close>

text \<open>
  \<open>split_all sep s\<close> is \<open>s.split(sep)\<close> for a non-empty separator, on \<open>str\<close> and on
  \<open>bytes\<close>: the pieces between
  the occurrences of \<open>sep\<close>, found from the left without overlap.  \<open>cur\<close> holds the
  current piece, reversed.  (Python raises on an empty separator; the program never
  passes one.)
\<close>

function split_from :: "'a list \<Rightarrow> 'a list \<Rightarrow> 'a list \<Rightarrow> 'a list list" where
  "split_from sep cur [] = [rev cur]"
| "split_from sep cur (c # cs) =
     (if sep \<noteq> [] \<and> prefix sep (c # cs)
      then rev cur # split_from sep [] (drop (length sep) (c # cs))
      else split_from sep (c # cur) cs)"
  by pat_completeness auto
termination
  by (relation "measure (\<lambda>(sep, cur, s). length s)") auto

definition split_all :: "'a list \<Rightarrow> 'a list \<Rightarrow> 'a list list" where
  "split_all sep s = split_from sep [] s"

text \<open>
  \<open>s.split(sep, 1)\<close>: \<open>Some (before, after)\<close> for the first occurrence of \<open>sep\<close>, where
  Python returns the two-element list, and \<open>None\<close> where it returns \<open>[s]\<close>.
\<close>

fun split_first_from :: "'a list \<Rightarrow> 'a list \<Rightarrow> 'a list \<Rightarrow> ('a list \<times> 'a list) option" where
  "split_first_from sep cur [] = None"
| "split_first_from sep cur (c # cs) =
     (if sep \<noteq> [] \<and> prefix sep (c # cs)
      then Some (rev cur, drop (length sep) (c # cs))
      else split_first_from sep (c # cur) cs)"

definition split_once :: "'a list \<Rightarrow> 'a list \<Rightarrow> ('a list \<times> 'a list) option" where
  "split_once sep s = split_first_from sep [] s"

text \<open>\<open>b.rstrip(chars)\<close>: drop the trailing bytes that belong to \<open>chars\<close>.\<close>

definition rstrip :: "string \<Rightarrow> string \<Rightarrow> string" where
  "rstrip chars b = rev (dropWhile (\<lambda>c. c \<in> set chars) (rev b))"

text \<open>
  \<open>s.encode()\<close>: UTF-8.  It raises on a surrogate code point (and there is no code point
  from \<open>0x110000\<close> on), which is \<open>None\<close> here.
\<close>

definition utf8_cp :: "nat \<Rightarrow> string" where
  "utf8_cp c =
     (if c < 0x80 then [char_of c]
      else if c < 0x800 then [char_of (0xC0 + c div 64), char_of (0x80 + c mod 64)]
      else if c < 0x10000
      then [char_of (0xE0 + c div 4096), char_of (0x80 + c div 64 mod 64), char_of (0x80 + c mod 64)]
      else [char_of (0xF0 + c div 262144), char_of (0x80 + c div 4096 mod 64),
            char_of (0x80 + c div 64 mod 64), char_of (0x80 + c mod 64)])"

definition encode :: "pystr \<Rightarrow> string option" where
  "encode s =
     (if list_ex (\<lambda>c. (0xD800 \<le> c \<and> c \<le> 0xDFFF) \<or> 0x110000 \<le> c) s then None
      else Some (concat (map utf8_cp s)))"

subsection \<open>Byte literals of the handler\<close>

definition CR :: char where "CR = CHR 0x0D"

definition LF :: char where "LF = CHR 0x0A"

text \<open>\<^verbatim>\<open>b"\r\n\r\n"\<close>, the blank line between a part's headers and its content.\<close>

definition BLANK_LINE :: string where
  "BLANK_LINE = [CR, LF, CR, LF]"

text \<open>\<^verbatim>\<open>b"\r\n--"\<close>, the argument of \<open>rstrip\<close>: the byte set CR, LF and \<^verbatim>\<open>-\<close>.\<close>

definition TRAILER :: string where
  "TRAILER = [CR, LF, CHR ''-'', CHR ''-'']"

text \<open>\<^verbatim>\<open>b'name="spreadsheet_url"'\<close> and \<^verbatim>\<open>b'name="csv_file"'\<close>.\<close>

definition NAME_SPREADSHEET_URL :: string where
  "NAME_SPREADSHEET_URL = ''name='' @ [CHR 0x22] @ ''spreadsheet_url'' @ [CHR 0x22]"

definition NAME_CSV_FILE :: string where
  "NAME_CSV_FILE = ''name='' @ [CHR 0x22] @ ''csv_file'' @ [CHR 0x22]"

text \<open>The \<open>str\<close> literals \<^verbatim>\<open>"multipart/form-data"\<close> and \<^verbatim>\<open>"boundary="\<close>.\<close>

definition MULTIPART_FORM_DATA :: pystr where
  "MULTIPART_FORM_DATA =
     [0x6D, 0x75, 0x6C, 0x74, 0x69, 0x70, 0x61, 0x72, 0x74, 0x2F, 0x66, 0x6F, 0x72, 0x6D, 0x2D,
      0x64, 0x61, 0x74, 0x61]"

definition BOUNDARY_EQ :: pystr where
  "BOUNDARY_EQ = [0x62, 0x6F, 0x75, 0x6E, 0x64, 0x61, 0x72, 0x79, 0x3D]"

text \<open>
  The messages of the handler's two exceptions: "the spreadsheet URL and the CSV file are
  required" and "multipart/form-data is required".
\<close>

definition MSG_NEED_BOTH :: pystr where
  "MSG_NEED_BOTH =
     [0x30B9, 0x30D7, 0x30EC, 0x30C3, 0x30C9, 0x30B7, 0x30FC, 0x30C8, 0x55, 0x52, 0x4C, 0x3068,
      0x43, 0x53, 0x56, 0x30D5, 0x30A1, 0x30A4, 0x30EB, 0x304C, 0x5FC5, 0x8981, 0x3067, 0x3059]"

definition MSG_NEED_MULTIPART :: pystr where
  "MSG_NEED_MULTIPART = MULTIPART_FORM_DATA @ [0x304C, 0x5FC5, 0x8981, 0x3067, 0x3059]"

subsection \<open>\<open>do_POST\<close>\<close>

text \<open>
  \<^verbatim>\<open>
                  for part in parts:
                      if b'name="spreadsheet_url"' in part:
                          lines = part.split(b"\r\n\r\n", 1)
                          if len(lines) > 1:
                              spreadsheet_url = lines[1].rstrip(b"\r\n--").decode("utf-8")
                      elif b'name="csv_file"' in part:
                          lines = part.split(b"\r\n\r\n", 1)
                          if len(lines) > 1:
                              csv_content = lines[1].rstrip(b"\r\n--")
  \<close>
  The loop over the parts, with the two variables it assigns.  \<open>decode\<close> is
  \<open>bytes.decode("utf-8")\<close>, \<open>None\<close> where it raises.
\<close>

fun scan_parts ::
  "(string \<Rightarrow> pystr option) \<Rightarrow> string list \<Rightarrow> pystr option \<Rightarrow> string option
     \<Rightarrow> error + (pystr option \<times> string option)" where
  "scan_parts decode [] spreadsheet_url csv_content = Inr (spreadsheet_url, csv_content)"
| "scan_parts decode (part # rest) spreadsheet_url csv_content =
     (if sublist NAME_SPREADSHEET_URL part
      then (case split_once BLANK_LINE part of
              Some (head, content) \<Rightarrow>
                (case decode (rstrip TRAILER content) of
                   None \<Rightarrow> Inl UnicodeDecodeError
                 | Some url \<Rightarrow> scan_parts decode rest (Some url) csv_content)
            | None \<Rightarrow> scan_parts decode rest spreadsheet_url csv_content)
      else if sublist NAME_CSV_FILE part
      then (case split_once BLANK_LINE part of
              Some (head, content) \<Rightarrow>
                scan_parts decode rest spreadsheet_url (Some (rstrip TRAILER content))
            | None \<Rightarrow> scan_parts decode rest spreadsheet_url csv_content)
      else scan_parts decode rest spreadsheet_url csv_content)"

text \<open>
  A request as the handler sees it: the \<open>Content-Type\<close> header (the empty string when
  absent) and the body that \<open>rfile.read\<close> returned.  (Reading the \<open>Content-Length\<close>
  header, which comes before and can raise as well, is left out.)  \<open>post_arguments\<close> is \<open>do_POST\<close> up
  to its call of \<open>process_data\<close>: the two arguments of that call, or the exception raised
  before it.
  \<^verbatim>\<open>
              if "multipart/form-data" in content_type:
                  boundary = content_type.split("boundary=")[1].encode()
                  parts = body.split(b"--" + boundary)
                  ...
                  if not spreadsheet_url or not csv_content:
                      raise Exception(<message>)
                  result = process_data(spreadsheet_url, csv_content)
              else:
                  raise Exception(<message>)
  \<close>
\<close>

definition post_arguments ::
  "(string \<Rightarrow> pystr option) \<Rightarrow> pystr \<Rightarrow> string \<Rightarrow> error + (pystr \<times> string)" where
  "post_arguments decode content_type body =
     (if sublist MULTIPART_FORM_DATA content_type
      then (case split_all BOUNDARY_EQ content_type of
              before # second # later \<Rightarrow>
                (case encode second of
                   None \<Rightarrow> Inl UnicodeEncodeError
                 | Some boundary \<Rightarrow>
                     (case scan_parts decode (split_all (''--'' @ boundary) body) None None of
                        Inl e \<Rightarrow> Inl e
                      | Inr (Some spreadsheet_url, Some csv_content) \<Rightarrow>
                          if spreadsheet_url = [] \<or> csv_content = []
                          then Inl (Exception MSG_NEED_BOTH)
                          else Inr (spreadsheet_url, csv_content)
                      | Inr other \<Rightarrow> Inl (Exception MSG_NEED_BOTH)))
            | fewer \<Rightarrow> Inl IndexError)
      else Inl (Exception MSG_NEED_MULTIPART))"

text \<open>
  The response: status 200 with the result, or status 500 with the exception (the
  handler sends its message).
\<close>

datatype response = Status200 result | Status500 error

definition do_POST ::
  "world \<Rightarrow> (string \<Rightarrow> pystr option) \<Rightarrow> pystr \<Rightarrow> string \<Rightarrow> response \<times> update list" where
  "do_POST W decode content_type body =
     (case post_arguments decode content_type body of
        Inl e \<Rightarrow> (Status500 e, [])
      | Inr (spreadsheet_url, csv_content) \<Rightarrow>
          (case process_data W spreadsheet_url csv_content of
             (Inl e, ws) \<Rightarrow> (Status500 e, ws)
           | (Inr r, ws) \<Rightarrow> (Status200 r, ws)))"

section \<open>A concrete upload\<close>

text \<open>
  The body a browser sends for a form with the text field \<open>spreadsheet_url\<close> and the
  file field \<open>csv_file\<close>, for a given boundary, URL text and file content.
\<close>

definition multipart_body :: "string \<Rightarrow> string \<Rightarrow> string \<Rightarrow> string" where
  "multipart_body boundary url file =
     ''--'' @ boundary @ [CR, LF]
     @ ''Content-Disposition: form-data; '' @ NAME_SPREADSHEET_URL @ [CR, LF]
     @ [CR, LF]
     @ url @ [CR, LF]
     @ ''--'' @ boundary @ [CR, LF]
     @ ''Content-Disposition: form-data; '' @ NAME_CSV_FILE @ ''; filename=a.csv'' @ [CR, LF]
     @ ''Content-Type: text/csv'' @ [CR, LF]
     @ [CR, LF]
     @ file @ [CR, LF]
     @ ''--'' @ boundary @ ''--'' @ [CR, LF]"

text \<open>The header value \<^verbatim>\<open>multipart/form-data; boundary=XYZ\<close>.\<close>

definition upload_content_type :: pystr where
  "upload_content_type =
     [0x6D, 0x75, 0x6C, 0x74, 0x69, 0x70, 0x61, 0x72, 0x74, 0x2F, 0x66, 0x6F, 0x72, 0x6D, 0x2D,
      0x64, 0x61, 0x74, 0x61, 0x3B, 0x20, 0x62, 0x6F, 0x75, 0x6E, 0x64, 0x61, 0x72, 0x79, 0x3D,
      0x58, 0x59, 0x5A]"

text \<open>
  A CSV file of two lines, each ended by a line feed: the header line
  \<^verbatim>\<open><meeruadoresu>,<touroku keiro>\<close> and the line \<^verbatim>\<open>a@x.com,R1\<close>, in UTF-8.
\<close>

definition upload_file :: string where
  "upload_file =
     concat (map utf8_cp
       (UTAGE_EMAIL_COLUMN @ [0x2C] @ UTAGE_ROUTE_COLUMN @ [0x0A]
        @ [0x61, 0x40, 0x78, 0x2E, 0x63, 0x6F, 0x6D, 0x2C, 0x52, 0x31, 0x0A]))"

text \<open>
  \<open>bytes.decode("utf-8")\<close> on ASCII bytes, where each byte is its code point.  The
  example decodes ASCII only.
\<close>

definition decode_ascii :: "string \<Rightarrow> pystr option" where
  "decode_ascii b =
     (if list_all (\<lambda>c. (of_char c :: nat) < 128) b then Some (map of_char b) else None)"

section \<open>Column letters: proofs\<close>

lemma col_loop_unfold:
  "0 < n \<Longrightarrow> col_loop n acc = col_loop ((n - 1) div 26) (chr (65 + (n - 1) mod 26) # acc)"
  by (subst col_loop.simps) simp

lemma col_loop_stop: "n \<le> 0 \<Longrightarrow> col_loop n acc = acc"
  by (subst col_loop.simps) simp

lemma col_loop_append: "col_loop n acc = col_loop n [] @ acc"
proof (induction "nat n" arbitrary: n acc rule: less_induct)
  case less
  show ?case
  proof (cases "0 < n")
    case True
    let ?q = "(n - 1) div 26" and ?c = "chr (65 + (n - 1) mod 26)"
    have smaller: "nat ?q < nat n"
      using True by auto
    have "col_loop n acc = col_loop ?q (?c # acc)"
      using True by (rule col_loop_unfold)
    also have "\<dots> = col_loop ?q [] @ (?c # acc)"
      using less [OF smaller] .
    also have "\<dots> = (col_loop ?q [] @ [?c]) @ acc"
      by simp
    also have "col_loop ?q [] @ [?c] = col_loop ?q [?c]"
      using less [OF smaller, of "[?c]"] by simp
    also have "col_loop ?q [?c] = col_loop n []"
      using True by (simp add: col_loop_unfold [of n "[]"])
    finally show ?thesis .
  next
    case False
    then show ?thesis by (simp add: col_loop_stop)
  qed
qed

lemma letters_value_snoc: "letters_value (s @ [c]) = 26 * letters_value s + (int c - 64)"
  by (simp add: letters_value_def)

lemma letters_value_col_loop: "0 \<le> n \<Longrightarrow> letters_value (col_loop n []) = n"
proof (induction "nat n" arbitrary: n rule: less_induct)
  case less
  show ?case
  proof (cases "0 < n")
    case True
    let ?q = "(n - 1) div 26" and ?r = "(n - 1) mod 26"
    have smaller: "nat ?q < nat n" and q0: "0 \<le> ?q" and r0: "0 \<le> ?r"
      using True by auto
    have "col_loop n [] = col_loop ?q [] @ [chr (65 + ?r)]"
      using col_loop_unfold [OF True, of "[]"] col_loop_append [of ?q "[chr (65 + ?r)]"] by simp
    then have "letters_value (col_loop n []) = 26 * letters_value (col_loop ?q []) + (int (chr (65 + ?r)) - 64)"
      by (simp add: letters_value_snoc)
    also have "\<dots> = 26 * ?q + (?r + 1)"
      using less(1) [OF smaller q0] r0 by (simp add: chr_def)
    also have "\<dots> = n"
      by (simp add: algebra_simps)
    finally show ?thesis .
  next
    case False
    with less(2) have "n = 0" by simp
    then show ?thesis by (simp add: col_loop_stop letters_value_def)
  qed
qed

lemma col_loop_letters_value:
  "set s \<subseteq> {65..90} \<Longrightarrow> col_loop (letters_value s) [] = s"
proof (induction s rule: rev_induct)
  case Nil
  then show ?case by (simp add: letters_value_def col_loop_stop)
next
  case (snoc c s)
  let ?m = "letters_value (s @ [c])"
  have c: "65 \<le> c" "c \<le> 90" and s: "set s \<subseteq> {65..90}"
    using snoc.prems by auto
  have m: "?m = 26 * letters_value s + (int c - 64)"
    by (rule letters_value_snoc)
  have pos: "0 < ?m"
  proof -
    have "0 \<le> letters_value s"
      using letters_value_col_loop col_loop_stop snoc.IH [OF s]
      by (metis (no_types) letters_value_def foldl_Nil linorder_le_cases list.simps(3) order_refl)
    then show ?thesis using m c by simp
  qed
  have m1: "?m - 1 = (int c - 65) + 26 * letters_value s"
    using m by simp
  have q: "(?m - 1) div 26 = letters_value s" and r: "(?m - 1) mod 26 = int c - 65"
    unfolding m1 using c by simp_all
  have "col_loop ?m [] = col_loop (letters_value s) [chr (65 + (int c - 65))]"
    using col_loop_unfold [OF pos, of "[]"] q r by simp
  also have "\<dots> = col_loop (letters_value s) [] @ [c]"
    using col_loop_append [of "letters_value s" "[chr (65 + (int c - 65))]"] by (simp add: chr_def)
  finally show ?case using snoc.IH [OF s] by simp
qed

lemma set_col_loop: "set (col_loop n []) \<subseteq> {65..90}"
proof (induction "nat n" arbitrary: n rule: less_induct)
  case less
  show ?case
  proof (cases "0 < n")
    case True
    let ?q = "(n - 1) div 26" and ?r = "(n - 1) mod 26"
    have smaller: "nat ?q < nat n" and r: "0 \<le> ?r" "?r < 26"
      using True by auto
    have "col_loop n [] = col_loop ?q [] @ [chr (65 + ?r)]"
      using col_loop_unfold [OF True, of "[]"] col_loop_append [of ?q "[chr (65 + ?r)]"] by simp
    moreover have "chr (65 + ?r) \<in> {65..90}"
      using r by (simp add: chr_def) linarith
    ultimately show ?thesis
      using less [OF smaller] by simp
  next
    case False
    then show ?thesis by (simp add: col_loop_stop)
  qed
qed

lemma col_loop_nonempty: "0 < n \<Longrightarrow> col_loop n [] \<noteq> []"
  using col_loop_append [of "(n - 1) div 26" "[chr (65 + (n - 1) mod 26)]"]
  by (simp add: col_loop_unfold [of n "[]"])

lemma letters_value_pos: "is_letters s \<Longrightarrow> 0 < letters_value s"
proof (induction s rule: rev_induct)
  case Nil
  then show ?case by (simp add: is_letters_def)
next
  case (snoc c s)
  have c: "65 \<le> c" and s: "set s \<subseteq> {65..90}"
    using snoc.prems by (auto simp: is_letters_def)
  have "0 \<le> letters_value s"
  proof (cases "s = []")
    case True
    then show ?thesis by (simp add: letters_value_def)
  next
    case False
    then show ?thesis using snoc.IH s by (simp add: is_letters_def)
  qed
  then show ?case using c by (simp add: letters_value_snoc)
qed

text \<open>
  C5.  \<open>col_index_to_letter\<close> is a bijection from the non-negative integers onto the
  non-empty strings over the letters \<open>A\<close> to \<open>Z\<close> (code points 65 to 90), and it maps
  0 to \<open>A\<close>, 1 to \<open>B\<close>, 25 to \<open>Z\<close>, 26 to \<open>AA\<close>, 27 to \<open>AB\<close>, 701 to \<open>ZZ\<close> and
  702 to \<open>AAA\<close>.
\<close>

theorem col_index_to_letter_bijection:
  "bij_betw col_index_to_letter {n. 0 \<le> n} {s. is_letters s}
   \<and> col_index_to_letter 0 = [65]
   \<and> col_index_to_letter 1 = [66]
   \<and> col_index_to_letter 25 = [90]
   \<and> col_index_to_letter 26 = [65, 65]
   \<and> col_index_to_letter 27 = [65, 66]
   \<and> col_index_to_letter 701 = [90, 90]
   \<and> col_index_to_letter 702 = [65, 65, 65]"
proof -
  let ?inv = "\<lambda>s. letters_value s - 1"
  have "bij_betw col_index_to_letter {n. 0 \<le> n} {s. is_letters s}"
  proof (rule bij_betw_byWitness [where f' = ?inv])
    show "\<forall>n\<in>{n. 0 \<le> n}. ?inv (col_index_to_letter n) = n"
      by (simp add: col_index_to_letter_def letters_value_col_loop)
    show "\<forall>s\<in>{s. is_letters s}. col_index_to_letter (?inv s) = s"
      by (simp add: col_index_to_letter_def col_loop_letters_value is_letters_def)
    show "col_index_to_letter ` {n. 0 \<le> n} \<subseteq> {s. is_letters s}"
      by (auto simp: col_index_to_letter_def is_letters_def col_loop_nonempty
          dest: subsetD [OF set_col_loop])
    show "?inv ` {s. is_letters s} \<subseteq> {n. 0 \<le> n}"
      using letters_value_pos by fastforce
  qed
  moreover have "col_index_to_letter 0 = [65]" "col_index_to_letter 1 = [66]"
    "col_index_to_letter 25 = [90]" "col_index_to_letter 26 = [65, 65]"
    "col_index_to_letter 27 = [65, 66]" "col_index_to_letter 701 = [90, 90]"
    "col_index_to_letter 702 = [65, 65, 65]"
    by (simp_all add: col_index_to_letter_def col_loop_unfold col_loop_stop chr_def)
  ultimately show ?thesis by simp
qed

section \<open>Spreadsheet ID extraction: proofs\<close>

lemma URL_PREFIX_nonempty: "URL_PREFIX \<noteq> []"
  by (simp add: URL_PREFIX_def)

lemma takeWhile_run:
  "list_all P g \<Longrightarrow> rest = [] \<or> (rest \<noteq> [] \<and> \<not> P (hd rest)) \<Longrightarrow> takeWhile P (g @ rest) = g"
  by (cases rest) (auto simp: list_all_iff takeWhile_append2)

lemma dropWhile_run:
  "list_all P g \<Longrightarrow> rest = [] \<or> (rest \<noteq> [] \<and> \<not> P (hd rest)) \<Longrightarrow> dropWhile P (g @ rest) = rest"
  by (cases rest) (auto simp: list_all_iff dropWhile_append2)

lemma match_url_here_iff: "match_url_here s = Some g \<longleftrightarrow> url_match s [] g"
proof
  assume m: "match_url_here s = Some g"
  let ?t = "drop (length URL_PREFIX) s"
  from m have p: "prefix URL_PREFIX s" and g: "g = takeWhile id_char ?t" and ne: "g \<noteq> []"
    by (auto simp: match_url_here_def split: if_splits)
  from p have s: "s = URL_PREFIX @ ?t"
    by (auto simp: prefix_def)
  let ?rest = "dropWhile id_char ?t"
  have "s = [] @ URL_PREFIX @ g @ ?rest"
    using s g by simp
  moreover have "list_all id_char g"
    using g by (auto simp: list_all_iff dest: set_takeWhileD)
  moreover have "?rest = [] \<or> (?rest \<noteq> [] \<and> \<not> id_char (hd ?rest))"
    using hd_dropWhile [of id_char ?t] by blast
  ultimately show "url_match s [] g"
    using ne unfolding url_match_def by blast
next
  assume "url_match s [] g"
  then obtain rest where s: "s = URL_PREFIX @ g @ rest" and ne: "g \<noteq> []"
    and g: "list_all id_char g" and r: "rest = [] \<or> (rest \<noteq> [] \<and> \<not> id_char (hd rest))"
    unfolding url_match_def by auto
  have "takeWhile id_char (drop (length URL_PREFIX) s) = g"
    using s takeWhile_run [OF g r] by simp
  moreover have "prefix URL_PREFIX s"
    using s by simp
  ultimately show "match_url_here s = Some g"
    using ne by (simp add: match_url_here_def)
qed

lemma url_match_Nil: "\<not> url_match [] pre g"
  by (simp add: url_match_def URL_PREFIX_nonempty)

lemma url_match_shift: "url_match cs pre g \<Longrightarrow> url_match (c # cs) (c # pre) g"
  unfolding url_match_def by auto

lemma url_match_unshift: "url_match (c # cs) (d # pre) g \<Longrightarrow> url_match cs pre g"
  unfolding url_match_def by auto

lemma search_url_leftmost:
  "url_match s pre g \<Longrightarrow> (\<forall>pre' g'. url_match s pre' g' \<longrightarrow> length pre \<le> length pre')
     \<Longrightarrow> search_url s = Some g"
proof (induction pre arbitrary: s)
  case Nil
  then have m: "match_url_here s = Some g"
    by (simp add: match_url_here_iff)
  from Nil(1) obtain c cs where "s = c # cs"
    by (cases s) (auto simp: url_match_Nil)
  with m show ?case by simp
next
  case (Cons d pre)
  from Cons.prems(1) obtain cs where s: "s = d # cs"
    unfolding url_match_def by auto
  have tail: "url_match cs pre g"
    using Cons.prems(1) s url_match_unshift by blast
  have here: "match_url_here s = None"
  proof (cases "match_url_here s")
    case (Some g')
    then have "url_match s [] g'" by (simp add: match_url_here_iff)
    with Cons.prems(2) show ?thesis by fastforce
  qed simp
  have "\<forall>pre' g'. url_match cs pre' g' \<longrightarrow> length pre \<le> length pre'"
  proof (intro allI impI)
    fix pre' g'
    assume "url_match cs pre' g'"
    then have "url_match s (d # pre') g'"
      using s url_match_shift by blast
    with Cons.prems(2) show "length pre \<le> length pre'" by fastforce
  qed
  with Cons.IH tail have "search_url cs = Some g" by blast
  with here s show ?case by simp
qed

lemma search_url_None_iff: "search_url s = None \<longleftrightarrow> (\<forall>pre g. \<not> url_match s pre g)"
proof (induction s)
  case Nil
  show ?case by (simp add: url_match_Nil)
next
  case (Cons c cs)
  show ?case
  proof
    assume n: "search_url (c # cs) = None"
    then have here: "match_url_here (c # cs) = None" and rest: "search_url cs = None"
      by (auto split: option.splits)
    show "\<forall>pre g. \<not> url_match (c # cs) pre g"
    proof (intro allI notI)
      fix pre g
      assume m: "url_match (c # cs) pre g"
      show False
      proof (cases pre)
        case Nil
        with m here show False by (simp add: match_url_here_iff [symmetric])
      next
        case (Cons d pre')
        with m have "url_match cs pre' g" using url_match_unshift by blast
        with rest Cons.IH show False by blast
      qed
    qed
  next
    assume no: "\<forall>pre g. \<not> url_match (c # cs) pre g"
    have "match_url_here (c # cs) = None"
    proof (cases "match_url_here (c # cs)")
      case (Some g)
      with no show ?thesis by (simp add: match_url_here_iff)
    qed simp
    moreover have "search_url cs = None"
      using no Cons.IH url_match_shift by blast
    ultimately show "search_url (c # cs) = None" by simp
  qed
qed

lemma not_id_char_newline: "\<not> id_char 10"
  by (simp add: id_char_def)

lemma search_token_iff: "search_token s = Some g \<longleftrightarrow> token_match s g"
proof
  assume m: "search_token s = Some g"
  then have g: "g = takeWhile id_char s" and ne: "g \<noteq> []"
    and d: "dropWhile id_char s = [] \<or> dropWhile id_char s = [10]"
    by (auto simp: search_token_def split: if_splits)
  have "s = g @ dropWhile id_char s"
    using g by simp
  with d have "s = g \<or> s = g @ [10]"
    by (metis append_Nil2)
  moreover have "list_all id_char g"
    using g by (auto simp: list_all_iff dest: set_takeWhileD)
  ultimately show "token_match s g"
    using ne by (simp add: token_match_def)
next
  assume "token_match s g"
  then have ne: "g \<noteq> []" and g: "list_all id_char g" and s: "s = g @ [] \<or> s = g @ [10]"
    by (auto simp: token_match_def)
  have whole: "takeWhile id_char g = g" "dropWhile id_char g = []"
    using g by (simp_all add: list_all_iff)
  have line: "takeWhile id_char (g @ [10]) = g" "dropWhile id_char (g @ [10]) = [10]"
    using takeWhile_run [OF g, of "[10]"] dropWhile_run [OF g, of "[10]"]
    by (simp_all add: not_id_char_newline)
  from s show "search_token s = Some g"
  proof
    assume "s = g @ []"
    then show ?thesis
      using ne by (simp add: search_token_def whole)
  next
    assume "s = g @ [10]"
    then show ?thesis
      using ne by (simp add: search_token_def line)
  qed
qed

lemma search_token_None_iff: "search_token s = None \<longleftrightarrow> (\<forall>g. \<not> token_match s g)"
  using search_token_iff [of s] by (cases "search_token s") auto

text \<open>
  C7, as the specification states it, fails.  The input \<^verbatim>\<open>"ABC\n"\<close> holds no Google Sheets
  URL and is not as a whole a token of letters, digits, \<^verbatim>\<open>_\<close> and \<^verbatim>\<open>-\<close>, so the result
  should be the input unchanged; but Python's \<open>$\<close> also matches just before a final line
  feed, the second pattern matches, and the result is \<^verbatim>\<open>"ABC"\<close>.
\<close>

theorem extract_spreadsheet_id_drops_final_newline:
  "search_url [65, 66, 67, 10] = None
   \<and> \<not> list_all id_char [65, 66, 67, 10]
   \<and> extract_spreadsheet_id [65, 66, 67, 10] = [65, 66, 67]
   \<and> extract_spreadsheet_id [65, 66, 67, 10] \<noteq> [65, 66, 67, 10]"
  by (simp add: extract_spreadsheet_id_def URL_PREFIX_def match_url_here_def search_token_def
      id_char_def)

text \<open>
  C7, amended.  \<open>extract_spreadsheet_id\<close> tries the Google Sheets URL pattern first and
  returns the group of its leftmost match; when the URL pattern matches nowhere it tries
  the token pattern, which matches when the whole string, or the whole string without
  one final line feed, is a non-empty token of letters, digits, \<^verbatim>\<open>_\<close> and \<^verbatim>\<open>-\<close>, and
  returns that token; when neither matches it returns the input unchanged.  On
  \<^verbatim>\<open>https://docs.google.com/spreadsheets/d/ABC123/edit\<close> and on \<^verbatim>\<open>ABC123\<close> the result is
  \<^verbatim>\<open>ABC123\<close>.
\<close>

theorem extract_spreadsheet_id_first_match:
  "(url_match s pre g \<and> (\<forall>pre' g'. url_match s pre' g' \<longrightarrow> length pre \<le> length pre')
      \<longrightarrow> extract_spreadsheet_id s = g)
   \<and> ((\<forall>pre' g'. \<not> url_match s pre' g') \<and> token_match s g \<longrightarrow> extract_spreadsheet_id s = g)
   \<and> ((\<forall>pre' g'. \<not> url_match s pre' g') \<and> (\<forall>g'. \<not> token_match s g')
      \<longrightarrow> extract_spreadsheet_id s = s)
   \<and> extract_spreadsheet_id (URL_PREFIX @ [65, 66, 67, 49, 50, 51, 47, 101, 100, 105, 116])
       = [65, 66, 67, 49, 50, 51]
   \<and> extract_spreadsheet_id [65, 66, 67, 49, 50, 51] = [65, 66, 67, 49, 50, 51]"
proof (intro conjI impI)
  assume "url_match s pre g \<and> (\<forall>pre' g'. url_match s pre' g' \<longrightarrow> length pre \<le> length pre')"
  then have "search_url s = Some g"
    using search_url_leftmost by blast
  then show "extract_spreadsheet_id s = g"
    by (simp add: extract_spreadsheet_id_def)
next
  assume "(\<forall>pre' g'. \<not> url_match s pre' g') \<and> token_match s g"
  then have "search_url s = None" "search_token s = Some g"
    by (simp_all add: search_url_None_iff search_token_iff)
  then show "extract_spreadsheet_id s = g"
    by (simp add: extract_spreadsheet_id_def)
next
  assume "(\<forall>pre' g'. \<not> url_match s pre' g') \<and> (\<forall>g'. \<not> token_match s g')"
  then have "search_url s = None" "search_token s = None"
    by (simp_all add: search_url_None_iff search_token_None_iff)
  then show "extract_spreadsheet_id s = s"
    by (simp add: extract_spreadsheet_id_def)
next
  show "extract_spreadsheet_id (URL_PREFIX @ [65, 66, 67, 49, 50, 51, 47, 101, 100, 105, 116])
       = [65, 66, 67, 49, 50, 51]"
    by (simp add: extract_spreadsheet_id_def URL_PREFIX_def match_url_here_def id_char_def)
next
  show "extract_spreadsheet_id [65, 66, 67, 49, 50, 51] = [65, 66, 67, 49, 50, 51]"
    by (simp add: extract_spreadsheet_id_def URL_PREFIX_def match_url_here_def search_token_def
        id_char_def)
qed

theorem extract_spreadsheet_id_first_match_witness:
  "url_match (URL_PREFIX @ [65, 66, 67, 49, 50, 51, 47, 101, 100, 105, 116]) [] [65, 66, 67, 49, 50, 51]
   \<and> extract_spreadsheet_id (URL_PREFIX @ [65, 66, 67, 49, 50, 51, 47, 101, 100, 105, 116])
       = [65, 66, 67, 49, 50, 51]
   \<and> (\<forall>pre g. \<not> url_match [65, 66, 67, 10] pre g)
   \<and> token_match [65, 66, 67, 10] [65, 66, 67]
   \<and> extract_spreadsheet_id [65, 66, 67, 10] = [65, 66, 67]
   \<and> (\<forall>pre g. \<not> url_match [97, 32, 98] pre g)
   \<and> (\<forall>g. \<not> token_match [97, 32, 98] g)
   \<and> extract_spreadsheet_id [97, 32, 98] = [97, 32, 98]"
proof -
  let ?u = "URL_PREFIX @ [65, 66, 67, 49, 50, 51, 47, 101, 100, 105, 116]"
  have u1: "url_match ?u [] [65, 66, 67, 49, 50, 51]"
    unfolding match_url_here_iff [symmetric]
    by (simp add: URL_PREFIX_def match_url_here_def id_char_def)
  have u2: "\<forall>pre' g'. url_match ?u pre' g' \<longrightarrow> length ([] :: pystr) \<le> length pre'"
    by simp
  have a: "extract_spreadsheet_id ?u = [65, 66, 67, 49, 50, 51]"
    using extract_spreadsheet_id_first_match [of ?u "[]" "[65, 66, 67, 49, 50, 51]"] u1 u2
    by blast
  have t1: "\<forall>pre g. \<not> url_match [65, 66, 67, 10] pre g"
    unfolding search_url_None_iff [symmetric]
    by (simp add: URL_PREFIX_def match_url_here_def)
  have t2: "token_match [65, 66, 67, 10] [65, 66, 67]"
    by (simp add: token_match_def id_char_def)
  have b: "extract_spreadsheet_id [65, 66, 67, 10] = [65, 66, 67]"
    using extract_spreadsheet_id_first_match [of "[65, 66, 67, 10]" "[]" "[65, 66, 67]"] t1 t2
    by blast
  have n1: "\<forall>pre g. \<not> url_match [97, 32, 98] pre g"
    unfolding search_url_None_iff [symmetric]
    by (simp add: URL_PREFIX_def match_url_here_def)
  have n2: "\<forall>g. \<not> token_match [97, 32, 98] g"
    unfolding search_token_None_iff [symmetric]
    by (simp add: search_token_def id_char_def)
  have c: "extract_spreadsheet_id [97, 32, 98] = [97, 32, 98]"
    using extract_spreadsheet_id_first_match [of "[97, 32, 98]" "[]" "[]"] n1 n2
    by blast
  from u1 a t1 t2 b n1 n2 c show ?thesis by blast
qed

section \<open>Email normalisation: proofs\<close>

lemma dropWhile_fixed: "xs = [] \<or> \<not> P (hd xs) \<Longrightarrow> dropWhile P xs = xs"
  by (cases xs) auto

lemma strip_prefix_of_dropWhile: "\<exists>zs. dropWhile isspace s = strip s @ zs"
proof -
  let ?u = "dropWhile isspace s"
  have "rev ?u = takeWhile isspace (rev ?u) @ dropWhile isspace (rev ?u)"
    by simp
  then have "?u = rev (dropWhile isspace (rev ?u)) @ rev (takeWhile isspace (rev ?u))"
    by (metis rev_append rev_rev_ident)
  then show ?thesis
    unfolding strip_def by blast
qed

lemma strip_head: "strip s = [] \<or> \<not> isspace (hd (strip s))"
proof (cases "strip s = []")
  case False
  obtain zs where u: "dropWhile isspace s = strip s @ zs"
    using strip_prefix_of_dropWhile by blast
  with False have "hd (strip s) = hd (dropWhile isspace s)" and "dropWhile isspace s \<noteq> []"
    by auto
  then show ?thesis
    using hd_dropWhile [of isspace s] by simp
qed simp

lemma strip_last: "rev (strip s) = [] \<or> \<not> isspace (hd (rev (strip s)))"
  unfolding strip_def using hd_dropWhile [of isspace "rev (dropWhile isspace s)"] by auto

lemma strip_strip: "strip (strip s) = strip s"
proof -
  have "dropWhile isspace (strip s) = strip s"
    using strip_head by (rule dropWhile_fixed)
  moreover have "dropWhile isspace (rev (strip s)) = rev (strip s)"
    using strip_last by (rule dropWhile_fixed)
  ultimately show ?thesis
    by (simp add: strip_def [of "strip s"])
qed

lemma isspace_lower_cp: "isspace (lower_cp c) = isspace c"
  by (auto simp: isspace_def lower_cp_def)

lemma lower_cp_lower_cp: "lower_cp (lower_cp c) = lower_cp c"
  by (simp add: lower_cp_def)

lemma set_strip: "set (strip s) \<subseteq> set s"
proof -
  have "set (strip s) \<subseteq> set (dropWhile isspace s)"
    unfolding strip_def using set_dropWhileD by fastforce
  then show ?thesis
    using set_dropWhileD by fastforce
qed

lemma dropWhile_map_agree:
  "\<forall>c \<in> set s. P (g c) = P c \<Longrightarrow> dropWhile P (map g s) = map g (dropWhile P s)"
  by (induction s) auto

lemma strip_map:
  assumes "\<forall>c \<in> set s. isspace (g c) = isspace c"
  shows "strip (map g s) = map g (strip s)"
proof -
  let ?u = "dropWhile isspace s"
  have front: "dropWhile isspace (map g s) = map g ?u"
    using assms by (rule dropWhile_map_agree)
  have "\<forall>c \<in> set (rev ?u). isspace (g c) = isspace c"
    using assms set_dropWhileD by fastforce
  then have rear: "dropWhile isspace (map g (rev ?u)) = map g (dropWhile isspace (rev ?u))"
    by (rule dropWhile_map_agree)
  show ?thesis
    by (simp add: strip_def front rev_map rear)
qed

lemma narrow_or_wide_strip: "narrow_or_wide s \<Longrightarrow> narrow_or_wide (strip s)"
  using set_strip by (fastforce simp: narrow_or_wide_def list_all_iff)

lemma is_ascii_narrow: "narrow_or_wide s \<Longrightarrow> is_ascii (map narrow s)"
  by (auto simp: narrow_or_wide_def is_ascii_def list_all_iff narrow_def)

lemma is_ascii_map_lower_cp: "is_ascii s \<Longrightarrow> is_ascii (map lower_cp s)"
  by (auto simp: is_ascii_def list_all_iff lower_cp_def)

lemma is_ascii_narrow_or_wide: "is_ascii s \<Longrightarrow> narrow_or_wide s"
  by (auto simp: narrow_or_wide_def is_ascii_def list_all_iff)

lemma narrow_ascii: "is_ascii s \<Longrightarrow> map narrow s = s"
  by (induction s) (auto simp: is_ascii_def narrow_def)

lemma isspace_narrow:
  "c < 128 \<or> (0xFF01 \<le> c \<and> c \<le> 0xFF5E) \<or> c = 0x3000 \<Longrightarrow> isspace (narrow c) = isspace c"
  by (auto simp: isspace_def narrow_def)

lemma py_nfkc_narrow: "narrow_or_wide s \<Longrightarrow> nfkc py s = map narrow s"
  by (induction s) (auto simp: py_def narrow_or_wide_def nfkc_cp_def narrow_def)

text \<open>
  C4, as the specification states it, fails: the diaeresis U+00A8 is not white space, so
  \<open>strip\<close> keeps it; NFKC replaces it by a space and the combining diaeresis U+0308;
  normalising that result again strips the leading space.
\<close>

theorem normalize_email_not_idempotent:
  "normalize_email py (normalize_email py [0xA8]) \<noteq> normalize_email py [0xA8]"
  by (simp add: normalize_email_def py_def strip_def isspace_def nfkc_cp_def lower_cp_def)

text \<open>
  C4, amended.  Let \<open>x\<close> be a string of ASCII characters, full-width forms (U+FF01 to
  U+FF5E) and ideographic spaces.  For every library whose NFKC replaces, in such
  strings, each full-width form and ideographic space by the ASCII character it stands
  for and leaves the ASCII characters, and whose \<open>lower\<close> maps the ASCII capitals to the
  small letters in ASCII strings, as Python's do:
  \<open>normalize_email (normalize_email x) = normalize_email x\<close>, where \<open>normalize_email\<close> trims,
  applies NFKC and lowercases, and maps the empty string to the empty string.
\<close>

theorem normalize_email_idempotent_on_widths:
  assumes nf: "\<forall>s. narrow_or_wide s \<longrightarrow> nfkc L s = map narrow s"
    and lo: "\<forall>s. is_ascii s \<longrightarrow> str_lower L s = map lower_cp s"
    and x: "narrow_or_wide x"
  shows "normalize_email L (normalize_email L x) = normalize_email L x
    \<and> normalize_email L [] = []
    \<and> normalize_email L x = (if x = [] then [] else str_lower L (nfkc L (strip x)))"
proof -
  let ?t = "strip x"
  let ?y = "map lower_cp (map narrow ?t)"
  have t: "narrow_or_wide ?t"
    using x by (rule narrow_or_wide_strip)
  have n: "is_ascii (map narrow ?t)"
    using t by (rule is_ascii_narrow)
  have y: "is_ascii ?y"
    using n by (rule is_ascii_map_lower_cp)
  have once: "str_lower L (nfkc L ?t) = ?y"
    using nf lo t n by simp
  have "\<forall>c \<in> set ?t. isspace ((lower_cp \<circ> narrow) c) = isspace c"
    using t by (auto simp: narrow_or_wide_def list_all_iff isspace_lower_cp isspace_narrow)
  then have "strip (map (lower_cp \<circ> narrow) ?t) = map (lower_cp \<circ> narrow) (strip ?t)"
    by (rule strip_map)
  then have fixed: "strip ?y = ?y"
    by (simp add: strip_strip)
  have "nfkc L ?y = map narrow ?y"
    using nf y is_ascii_narrow_or_wide by blast
  also have "\<dots> = ?y"
    using y by (rule narrow_ascii)
  finally have "str_lower L (nfkc L (strip ?y)) = str_lower L ?y"
    using fixed by simp
  also have "\<dots> = map lower_cp ?y"
    using lo y by blast
  also have "\<dots> = ?y"
    by (simp add: lower_cp_lower_cp)
  finally have again: "str_lower L (nfkc L (strip ?y)) = ?y" .
  have "normalize_email L (normalize_email L x) = normalize_email L x"
  proof (cases "x = []")
    case True
    then show ?thesis by (simp add: normalize_email_def)
  next
    case False
    then have "normalize_email L x = ?y"
      using once by (simp add: normalize_email_def)
    moreover have "normalize_email L ?y = ?y"
      using again by (simp add: normalize_email_def)
    ultimately show ?thesis by simp
  qed
  then show ?thesis
    by (simp add: normalize_email_def)
qed

text \<open>
  The witness is the input \<^verbatim>\<open>" <full-width A>@Example.COM "\<close>, which normalises to
  \<^verbatim>\<open>"a@example.com"\<close>.
\<close>

theorem normalize_email_idempotent_on_widths_witness:
  "narrow_or_wide [32, 0xFF21, 64, 69, 120, 97, 109, 112, 108, 101, 46, 67, 79, 77, 32]
   \<and> normalize_email py [32, 0xFF21, 64, 69, 120, 97, 109, 112, 108, 101, 46, 67, 79, 77, 32]
       = [97, 64, 101, 120, 97, 109, 112, 108, 101, 46, 99, 111, 109]
   \<and> normalize_email py
        (normalize_email py [32, 0xFF21, 64, 69, 120, 97, 109, 112, 108, 101, 46, 67, 79, 77, 32])
       = normalize_email py [32, 0xFF21, 64, 69, 120, 97, 109, 112, 108, 101, 46, 67, 79, 77, 32]"
proof -
  let ?x = "[32, 0xFF21, 64, 69, 120, 97, 109, 112, 108, 101, 46, 67, 79, 77, 32] :: pystr"
  have nf: "\<forall>s. narrow_or_wide s \<longrightarrow> nfkc py s = map narrow s"
    by (simp add: py_nfkc_narrow)
  have lo: "\<forall>s. is_ascii s \<longrightarrow> str_lower py s = map lower_cp s"
    by (simp add: py_def)
  have x: "narrow_or_wide ?x"
    by (simp add: narrow_or_wide_def)
  have v: "normalize_email py ?x = [97, 64, 101, 120, 97, 109, 112, 108, 101, 46, 99, 111, 109]"
    by (simp add: normalize_email_def py_def strip_def isspace_def nfkc_cp_def lower_cp_def)
  from normalize_email_idempotent_on_widths [OF nf lo x] x v show ?thesis
    by blast
qed

section \<open>Header column detection: proofs\<close>

lemma find_from_eq:
  "find_from L k hs =
     (if list_ex (alias_hit L) hs
      then k + int (length (takeWhile (\<lambda>h. \<not> alias_hit L h) hs))
      else -1)"
  by (induction hs arbitrary: k) auto

lemma first_hit_index:
  assumes "list_ex P hs"
  shows "length (takeWhile (\<lambda>h. \<not> P h) hs) < length hs"
    and "P (hs ! length (takeWhile (\<lambda>h. \<not> P h) hs))"
    and "\<forall>j < length (takeWhile (\<lambda>h. \<not> P h) hs). \<not> P (hs ! j)"
proof -
  let ?n = "length (takeWhile (\<lambda>h. \<not> P h) hs)"
  from assms obtain h where "h \<in> set hs" "P h"
    by (auto simp: list_ex_iff)
  then have "\<exists>h \<in> set hs. \<not> \<not> P h"
    by blast
  then show lt: "?n < length hs"
    by (induction hs) auto
  show "P (hs ! ?n)"
    using nth_length_takeWhile [OF lt] by simp
  show "\<forall>j < ?n. \<not> P (hs ! j)"
  proof (intro allI impI)
    fix j assume j: "j < ?n"
    then have "takeWhile (\<lambda>h. \<not> P h) hs ! j = hs ! j"
      by (rule takeWhile_nth)
    moreover have "takeWhile (\<lambda>h. \<not> P h) hs ! j \<in> set (takeWhile (\<lambda>h. \<not> P h) hs)"
      using j by simp
    ultimately show "\<not> P (hs ! j)"
      using set_takeWhileD by fastforce
  qed
qed

text \<open>
  C6, as the specification states it, fails: the program trims the lowercased header
  name before the substring tests.  The header \<^verbatim>\<open>" mai"\<close> is neither contained in an
  alias nor contains one, but trimmed it is contained in \<^verbatim>\<open>"email"\<close>, and the program
  returns its index 0 instead of -1.
\<close>

theorem find_email_column_trims:
  "find_email_column py [[32, 109, 97, 105]] = 0 \<and> \<not> spec_alias_hit py [32, 109, 97, 105]"
  by (simp add: find_email_column_def alias_hit_def spec_alias_hit_def EMAIL_COLUMN_PATTERNS_def
      py_def lower_cp_def strip_def isspace_def sublist_code)

text \<open>
  C6, amended.  A header name is a hit when, lowercased and then trimmed of surrounding
  white space, it contains some lowercased alias or is contained in one.  For every
  header row, \<open>find_email_column\<close> returns the index of the first column whose name is a
  hit, and -1 when no column is a hit.
\<close>

theorem find_email_column_first_hit:
  "(alias_hit L name \<longleftrightarrow>
      (\<exists>pattern \<in> set EMAIL_COLUMN_PATTERNS.
         sublist (str_lower L pattern) (strip (str_lower L name))
         \<or> sublist (strip (str_lower L name)) (str_lower L pattern)))
   \<and> (if list_ex (alias_hit L) header_row
      then \<exists>i < length header_row.
             find_email_column L header_row = int i
             \<and> alias_hit L (header_row ! i)
             \<and> (\<forall>j < i. \<not> alias_hit L (header_row ! j))
      else find_email_column L header_row = -1)"
proof (intro conjI)
  show "alias_hit L name \<longleftrightarrow>
      (\<exists>pattern \<in> set EMAIL_COLUMN_PATTERNS.
         sublist (str_lower L pattern) (strip (str_lower L name))
         \<or> sublist (strip (str_lower L name)) (str_lower L pattern))"
    by (simp add: alias_hit_def list_ex_iff Let_def)
next
  show "if list_ex (alias_hit L) header_row
      then \<exists>i < length header_row.
             find_email_column L header_row = int i
             \<and> alias_hit L (header_row ! i)
             \<and> (\<forall>j < i. \<not> alias_hit L (header_row ! j))
      else find_email_column L header_row = -1"
  proof (cases "list_ex (alias_hit L) header_row")
    case True
    let ?i = "length (takeWhile (\<lambda>h. \<not> alias_hit L h) header_row)"
    have "find_email_column L header_row = int ?i"
      using True by (simp add: find_email_column_def find_from_eq)
    with first_hit_index [OF True] True show ?thesis
      by auto
  next
    case False
    then show ?thesis
      by (simp add: find_email_column_def find_from_eq)
  qed
qed

theorem find_email_column_first_hit_witness:
  "list_ex (alias_hit py) [[0x6C0F, 0x540D], [0x30E1, 0x30FC, 0x30EB, 0x30A2, 0x30C9, 0x30EC, 0x30B9]]
   \<and> find_email_column py [[0x6C0F, 0x540D], [0x30E1, 0x30FC, 0x30EB, 0x30A2, 0x30C9, 0x30EC, 0x30B9]] = 1
   \<and> \<not> list_ex (alias_hit py) [[0x6C0F, 0x540D]]
   \<and> find_email_column py [[0x6C0F, 0x540D]] = -1"
proof -
  let ?h = "[[0x6C0F, 0x540D], [0x30E1, 0x30FC, 0x30EB, 0x30A2, 0x30C9, 0x30EC, 0x30B9]] :: pystr list"
  have n0: "\<not> alias_hit py [0x6C0F, 0x540D]"
    by (simp add: alias_hit_def EMAIL_COLUMN_PATTERNS_def py_def lower_cp_def strip_def
        isspace_def sublist_code)
  have h1: "alias_hit py [0x30E1, 0x30FC, 0x30EB, 0x30A2, 0x30C9, 0x30EC, 0x30B9]"
    by (simp add: alias_hit_def EMAIL_COLUMN_PATTERNS_def py_def lower_cp_def strip_def
        isspace_def sublist_code)
  have ex: "list_ex (alias_hit py) ?h"
    using h1 by simp
  from find_email_column_first_hit [of py "[]" ?h] ex
  obtain i where i: "i < length ?h" "find_email_column py ?h = int i" "alias_hit py (?h ! i)"
    by auto
  have "i \<noteq> 0"
  proof
    assume "i = 0"
    with i(3) n0 show False by simp
  qed
  with i(1) have "i = 1" by simp
  with i(2) have a: "find_email_column py ?h = 1" by simp
  have none: "\<not> list_ex (alias_hit py) [[0x6C0F, 0x540D]]"
    using n0 by simp
  from find_email_column_first_hit [of py "[]" "[[0x6C0F, 0x540D]]"] none
  have b: "find_email_column py [[0x6C0F, 0x540D]] = -1"
    by simp
  from ex a none b show ?thesis by blast
qed

section \<open>The reconciliation procedure: proofs\<close>

subsection \<open>What a successful run went through\<close>

lemma read_emails_Inr:
  assumes "read_emails W spreadsheet_url = Inr (header_row, data_rows, email_col_index, emails)"
  shows "\<exists>credentials. get_credentials W = Inr credentials
           \<and> get_all_values W credentials (extract_spreadsheet_id spreadsheet_url)
               = Some (header_row # data_rows)"
    and "email_col_index = find_email_column (unicode W) header_row"
    and "0 \<le> email_col_index"
    and "emails = collect_emails email_col_index data_rows"
    and "emails \<noteq> []"
  using assms
  by (auto simp: read_emails_def Let_def split: sum.splits option.splits list.splits if_splits)

lemma write_back_Inr:
  assumes "write_back W header_row data_rows email_col_index emails csv_data = (Inr r, ws)"
  shows "r = \<lparr> success = True,
               total_count = int (length emails),
               success_count = int (length emails)
                 - int (length (unmatched (unicode W)
                     (build_index (unicode W) (columns csv_data) (frame_rows csv_data) Map.empty)
                     emails)),
               not_found_count = int (length (unmatched (unicode W)
                     (build_index (unicode W) (columns csv_data) (frame_rows csv_data) Map.empty)
                     emails)),
               not_found_emails = take 50 (unmatched (unicode W)
                     (build_index (unicode W) (columns csv_data) (frame_rows csv_data) Map.empty)
                     emails) \<rparr>"
  using assms by (simp add: write_back_def Let_def split: if_splits)

lemma process_data_Inr:
  assumes "process_data W spreadsheet_url csv_content = (Inr r, ws)"
  obtains header_row data_rows email_col_index emails csv_data where
    "read_emails W spreadsheet_url = Inr (header_row, data_rows, email_col_index, emails)"
    "load_csv W csv_content = Inr csv_data"
    "write_back W header_row data_rows email_col_index emails csv_data = (Inr r, ws)"
  using assms by (auto simp: process_data_def split: sum.splits prod.splits)

lemma write_back_no_failure:
  assumes "\<forall>cells vals. \<not> update_fails W cells vals"
  shows "\<exists>ws. write_back W header_row data_rows email_col_index emails csv_data =
     (Inr \<lparr> success = True,
            total_count = int (length emails),
            success_count = int (length emails)
              - int (length (unmatched (unicode W)
                  (build_index (unicode W) (columns csv_data) (frame_rows csv_data) Map.empty)
                  emails)),
            not_found_count = int (length (unmatched (unicode W)
                  (build_index (unicode W) (columns csv_data) (frame_rows csv_data) Map.empty)
                  emails)),
            not_found_emails = take 50 (unmatched (unicode W)
                  (build_index (unicode W) (columns csv_data) (frame_rows csv_data) Map.empty)
                  emails) \<rparr>, ws)"
  using assms by (simp add: write_back_def Let_def)

subsection \<open>The index never holds an empty route list\<close>

lemma build_index_nonempty:
  assumes "\<forall>k rs. m k = Some rs \<longrightarrow> rs \<noteq> []"
  shows "\<forall>k rs. build_index L cols rows m k = Some rs \<longrightarrow> rs \<noteq> []"
  using assms
proof (induction rows arbitrary: m)
  case Nil
  then show ?case by simp
next
  case (Cons row rest)
  let ?email = "py_str (row_get cols row UTAGE_EMAIL_COLUMN (Str []))"
  let ?route = "py_str (row_get cols row UTAGE_ROUTE_COLUMN (Str []))"
  show ?case
  proof (cases "?email = []")
    case True
    then show ?thesis
      using Cons.IH [OF Cons.prems] by simp
  next
    case False
    let ?n = "normalize_email L ?email"
    let ?routes = "case m ?n of None \<Rightarrow> [] | Some rs \<Rightarrow> rs"
    let ?m = "m(?n \<mapsto> (if ?route \<in> set ?routes then ?routes else ?routes @ [?route]))"
    have "\<forall>k rs. ?m k = Some rs \<longrightarrow> rs \<noteq> []"
      using Cons.prems by (cases "m ?n") auto
    from Cons.IH [OF this]
    have "\<forall>k rs. build_index L cols rest ?m k = Some rs \<longrightarrow> rs \<noteq> []" .
    moreover have "build_index L cols (row # rest) m = build_index L cols rest ?m"
      using False by (simp add: Let_def)
    ultimately show ?thesis
      by (simp only:)
  qed
qed

lemma lookup_routes_empty_iff:
  "lookup_routes L (build_index L cols rows Map.empty) email = []
     \<longleftrightarrow> normalize_email L email \<notin> dom (build_index L cols rows Map.empty)"
proof -
  have "\<forall>k rs. build_index L cols rows Map.empty k = Some rs \<longrightarrow> rs \<noteq> []"
    by (rule build_index_nonempty) simp
  then show ?thesis
    by (auto simp: lookup_routes_def split: option.splits)
qed

lemma unmatched_eq:
  "unmatched L (build_index L cols rows Map.empty) emails =
     filter (\<lambda>email. normalize_email L email \<notin> dom (build_index L cols rows Map.empty)) emails"
  unfolding unmatched_def by (simp add: lookup_routes_empty_iff)

lemma length_unmatched_le: "length (unmatched L m emails) \<le> length emails"
  by (simp add: unmatched_def)

subsection \<open>The end-to-end scenario\<close>

lemma normalize_email_py:
  "normalize_email py s = (if s = [] then [] else map lower_cp (concat (map nfkc_cp (strip s))))"
  by (simp add: normalize_email_def py_def)

lemma scenario_email_column:
  "find_email_column py [[0x6C0F, 0x540D], [0x30E1, 0x30FC, 0x30EB, 0x30A2, 0x30C9, 0x30EC, 0x30B9]] = 1"
  by (simp add: find_email_column_def alias_hit_def EMAIL_COLUMN_PATTERNS_def py_def lower_cp_def
      strip_def isspace_def sublist_code)

lemma scenario_read_emails:
  assumes "unicode W = py"
    and "get_credentials W = Inr credentials"
    and "get_all_values W credentials (extract_spreadsheet_id spreadsheet_url) = Some scenario_sheet"
  shows "read_emails W spreadsheet_url =
     Inr (hd scenario_sheet, tl scenario_sheet, 1,
          [[0x61, 0x40, 0x78, 0x2E, 0x63, 0x6F, 0x6D], [0x62, 0x40, 0x78, 0x2E, 0x63, 0x6F, 0x6D]])"
  using assms
  by (simp add: read_emails_def scenario_sheet_def scenario_email_column collect_emails_def
      has_email_def)

lemma scenario_load_csv:
  assumes "decode_csv W csv_content = Frame scenario_frame"
  shows "load_csv W csv_content = Inr scenario_frame"
  using assms
  by (simp add: load_csv_def scenario_frame_def UTAGE_EMAIL_COLUMN_def UTAGE_ROUTE_COLUMN_def)

lemma scenario_index:
  "build_index py (columns scenario_frame) (frame_rows scenario_frame) Map.empty =
     [[0x61, 0x40, 0x78, 0x2E, 0x63, 0x6F, 0x6D] \<mapsto>
        [[0x52, 0x6F, 0x75, 0x74, 0x65, 0x31], [0x52, 0x6F, 0x75, 0x74, 0x65, 0x32]],
      [0x63, 0x40, 0x78, 0x2E, 0x63, 0x6F, 0x6D] \<mapsto> [[0x52, 0x6F, 0x75, 0x74, 0x65, 0x33]]]"
  by (simp add: scenario_frame_def row_get_def py_str_def UTAGE_EMAIL_COLUMN_def
      UTAGE_ROUTE_COLUMN_def normalize_email_py strip_def isspace_def nfkc_cp_def lower_cp_def)

lemma scenario_column: "route_col_index (hd scenario_sheet) = 2" "col_index_to_letter 2 = [0x43]"
  by (simp_all add: route_col_index_def scenario_sheet_def UTAGE_HEADER_def
      col_index_to_letter_def col_loop_unfold col_loop_stop chr_def)

lemma scenario_write_back:
  assumes "unicode W = py"
    and "\<forall>cells vals. \<not> update_fails W cells vals"
  shows "write_back W (hd scenario_sheet) (tl scenario_sheet) 1
           [[0x61, 0x40, 0x78, 0x2E, 0x63, 0x6F, 0x6D], [0x62, 0x40, 0x78, 0x2E, 0x63, 0x6F, 0x6D]]
           scenario_frame
         = (Inr scenario_result, scenario_updates)"
proof -
  have rest: "tl scenario_sheet =
      [[[0x54, 0x61, 0x72, 0x6F], [0x61, 0x40, 0x78, 0x2E, 0x63, 0x6F, 0x6D]],
       [[0x48, 0x61, 0x6E, 0x61, 0x6B, 0x6F], [0x62, 0x40, 0x78, 0x2E, 0x63, 0x6F, 0x6D]]]"
    by (simp add: scenario_sheet_def)
  show ?thesis
    using assms
    by (simp add: write_back_def scenario_index scenario_column rest Let_def
        match_results_def unmatched_def lookup_routes_def result_map_def values_to_write_def
        normalize_email_py strip_def isspace_def nfkc_cp_def lower_cp_def
        str_nat.simps scenario_result_def scenario_updates_def)
qed

lemma scenario_run:
  assumes "unicode W = py"
    and "get_credentials W = Inr credentials"
    and "get_all_values W credentials (extract_spreadsheet_id spreadsheet_url) = Some scenario_sheet"
    and "decode_csv W csv_content = Frame scenario_frame"
    and "\<forall>cells vals. \<not> update_fails W cells vals"
  shows "process_data W spreadsheet_url csv_content = (Inr scenario_result, scenario_updates)"
  using scenario_read_emails [OF assms(1-3)] scenario_load_csv [OF assms(4)]
    scenario_write_back [OF assms(1) assms(5)]
  by (simp add: process_data_def)

lemma example_world_simps:
  "unicode (example_world sheet frame) = py"
  "get_credentials (example_world sheet frame) = Inr [0x7B, 0x7D]"
  "get_all_values (example_world sheet frame) credentials [0x41, 0x42, 0x43, 0x31, 0x32, 0x33] = Some sheet"
  "decode_csv (example_world sheet frame) csv_content = Frame frame"
  "\<forall>cells vals. \<not> update_fails (example_world sheet frame) cells vals"
  by (simp_all add: example_world_def get_credentials_def decode_csv_def)

lemma extract_ABC123:
  "extract_spreadsheet_id [0x41, 0x42, 0x43, 0x31, 0x32, 0x33] = [0x41, 0x42, 0x43, 0x31, 0x32, 0x33]"
  by (simp add: extract_spreadsheet_id_def URL_PREFIX_def match_url_here_def search_token_def
      id_char_def)

text \<open>
  C1.  In a world where the credentials are accepted, the spreadsheet holds the header
  \<^verbatim>\<open>[<shimei>, <meeruadoresu>]\<close> and the rows \<^verbatim>\<open>["Taro", "a@x.com"]\<close>, \<^verbatim>\<open>["Hanako", "b@x.com"]\<close>,
  the CSV has the columns \<^verbatim>\<open><meeruadoresu>\<close>, \<^verbatim>\<open><touroku keiro>\<close> and the rows
  \<^verbatim>\<open>("A@X.COM", "Route1")\<close>, \<^verbatim>\<open>("a@x.com", "Route2")\<close>, \<^verbatim>\<open>("c@x.com", "Route3")\<close>, and no
  update fails, \<open>process_data\<close> writes the header \<^verbatim>\<open>UTAGE<touroku keiro>\<close> to cell \<^verbatim>\<open>C1\<close>
  (column index 2, letter \<^verbatim>\<open>C\<close>), writes \<^verbatim>\<open>"Route1, Route2"\<close> for Taro's row and \<^verbatim>\<open>""\<close>
  for Hanako's row to \<^verbatim>\<open>C2:C3\<close>, and returns \<open>total_count = 2\<close>, \<open>success_count = 1\<close>,
  \<open>not_found_count = 1\<close>, \<open>not_found_emails = ["b@x.com"]\<close>.
\<close>

theorem process_data_scenario:
  assumes "unicode W = py"
    and "get_credentials W = Inr credentials"
    and "get_all_values W credentials (extract_spreadsheet_id spreadsheet_url) = Some scenario_sheet"
    and "decode_csv W csv_content = Frame scenario_frame"
    and "\<forall>cells vals. \<not> update_fails W cells vals"
  shows "process_data W spreadsheet_url csv_content =
           (Inr \<lparr> success = True, total_count = 2, success_count = 1, not_found_count = 1,
                  not_found_emails = [[0x62, 0x40, 0x78, 0x2E, 0x63, 0x6F, 0x6D]] \<rparr>,
            [([0x43, 0x31], [[UTAGE_HEADER]]),
             ([0x43, 0x32, 0x3A, 0x43, 0x33],
              [[[0x52, 0x6F, 0x75, 0x74, 0x65, 0x31, 0x2C, 0x20, 0x52, 0x6F, 0x75, 0x74, 0x65, 0x32]],
               [[]]])])
         \<and> route_col_index (hd scenario_sheet) = 2
         \<and> col_index_to_letter 2 = [0x43]"
  using scenario_run [OF assms] scenario_column
  by (simp add: scenario_result_def scenario_updates_def)

theorem process_data_scenario_witness:
  "process_data (example_world scenario_sheet scenario_frame)
     [0x41, 0x42, 0x43, 0x31, 0x32, 0x33] ''csv'' =
     (Inr \<lparr> success = True, total_count = 2, success_count = 1, not_found_count = 1,
            not_found_emails = [[0x62, 0x40, 0x78, 0x2E, 0x63, 0x6F, 0x6D]] \<rparr>,
      [([0x43, 0x31], [[UTAGE_HEADER]]),
       ([0x43, 0x32, 0x3A, 0x43, 0x33],
        [[[0x52, 0x6F, 0x75, 0x74, 0x65, 0x31, 0x2C, 0x20, 0x52, 0x6F, 0x75, 0x74, 0x65, 0x32]],
         [[]]])])"
  using process_data_scenario [of "example_world scenario_sheet scenario_frame" "[0x7B, 0x7D]"
      "[0x41, 0x42, 0x43, 0x31, 0x32, 0x33]" "''csv''"]
  by (simp add: example_world_simps extract_ABC123)

subsection \<open>Counts\<close>

text \<open>
  C9.  In every successful result of \<open>process_data\<close>, \<open>total_count\<close> is the sum of
  \<open>success_count\<close> and \<open>not_found_count\<close>, the three counts are non-negative, and
  \<open>total_count\<close> is the number of data rows of the spreadsheet (the rows after the header)
  that have a cell in the email column and a non-empty string in it.
\<close>

theorem process_data_counts:
  assumes "process_data W spreadsheet_url csv_content = (Inr r, ws)"
  shows "total_count r = success_count r + not_found_count r
       \<and> 0 \<le> total_count r \<and> 0 \<le> success_count r \<and> 0 \<le> not_found_count r
       \<and> (\<exists>credentials header_row data_rows.
            get_credentials W = Inr credentials
            \<and> get_all_values W credentials (extract_spreadsheet_id spreadsheet_url)
                = Some (header_row # data_rows)
            \<and> total_count r =
                int (length (filter
                  (\<lambda>row. find_email_column (unicode W) header_row < int (length row)
                         \<and> row ! nat (find_email_column (unicode W) header_row) \<noteq> [])
                  data_rows)))"
proof -
  from assms obtain header_row data_rows email_col_index emails csv_data where
    rd: "read_emails W spreadsheet_url = Inr (header_row, data_rows, email_col_index, emails)"
    and wb: "write_back W header_row data_rows email_col_index emails csv_data = (Inr r, ws)"
    by (rule process_data_Inr)
  let ?nf = "unmatched (unicode W)
     (build_index (unicode W) (columns csv_data) (frame_rows csv_data) Map.empty) emails"
  have r: "total_count r = int (length emails)"
    "success_count r = int (length emails) - int (length ?nf)"
    "not_found_count r = int (length ?nf)"
    using write_back_Inr [OF wb] by simp_all
  have le: "length ?nf \<le> length emails"
    by (rule length_unmatched_le)
  have sums: "total_count r = success_count r + not_found_count r"
    "0 \<le> total_count r" "0 \<le> success_count r" "0 \<le> not_found_count r"
    using r le by simp_all
  from read_emails_Inr [OF rd] obtain credentials where
    c: "get_credentials W = Inr credentials"
    "get_all_values W credentials (extract_spreadsheet_id spreadsheet_url)
       = Some (header_row # data_rows)"
    and i: "email_col_index = find_email_column (unicode W) header_row"
    and e: "emails = collect_emails email_col_index data_rows"
    by blast
  have "total_count r =
      int (length (filter
        (\<lambda>row. find_email_column (unicode W) header_row < int (length row)
               \<and> row ! nat (find_email_column (unicode W) header_row) \<noteq> [])
        data_rows))"
    using r(1) e i by (simp add: collect_emails_def has_email_def [abs_def])
  with c sums show ?thesis by blast
qed

theorem process_data_counts_witness:
  "process_data (example_world scenario_sheet scenario_frame)
     [0x41, 0x42, 0x43, 0x31, 0x32, 0x33] ''csv'' = (Inr scenario_result, scenario_updates)
   \<and> total_count scenario_result = 2
   \<and> total_count scenario_result = success_count scenario_result + not_found_count scenario_result
   \<and> 0 \<le> success_count scenario_result \<and> 0 \<le> not_found_count scenario_result"
proof -
  have run: "process_data (example_world scenario_sheet scenario_frame)
     [0x41, 0x42, 0x43, 0x31, 0x32, 0x33] ''csv'' = (Inr scenario_result, scenario_updates)"
    by (rule scenario_run) (simp_all add: example_world_simps extract_ABC123)
  from process_data_counts [OF run] run show ?thesis
    by (simp add: scenario_result_def)
qed

text \<open>
  C8.  In every successful result of \<open>process_data\<close>, \<open>not_found_emails\<close> has at most 50
  entries: it is the first 50 of the spreadsheet's emails, in row order, whose normalised
  form is not a key of the index built from the CSV, while \<open>not_found_count\<close> is the
  number of all of them.
\<close>

theorem not_found_emails_truncated:
  assumes "process_data W spreadsheet_url csv_content = (Inr r, ws)"
  shows "length (not_found_emails r) \<le> 50
       \<and> (\<exists>header_row data_rows email_col_index csv_data.
            read_emails W spreadsheet_url =
              Inr (header_row, data_rows, email_col_index,
                   collect_emails email_col_index data_rows)
            \<and> load_csv W csv_content = Inr csv_data
            \<and> not_found_emails r =
                take 50 (filter
                  (\<lambda>email. normalize_email (unicode W) email
                     \<notin> dom (build_index (unicode W) (columns csv_data) (frame_rows csv_data)
                              Map.empty))
                  (collect_emails email_col_index data_rows))
            \<and> not_found_count r =
                int (length (filter
                  (\<lambda>email. normalize_email (unicode W) email
                     \<notin> dom (build_index (unicode W) (columns csv_data) (frame_rows csv_data)
                              Map.empty))
                  (collect_emails email_col_index data_rows))))"
proof -
  from assms obtain header_row data_rows email_col_index emails csv_data where
    rd: "read_emails W spreadsheet_url = Inr (header_row, data_rows, email_col_index, emails)"
    and ld: "load_csv W csv_content = Inr csv_data"
    and wb: "write_back W header_row data_rows email_col_index emails csv_data = (Inr r, ws)"
    by (rule process_data_Inr)
  have e: "emails = collect_emails email_col_index data_rows"
    using read_emails_Inr(4) [OF rd] .
  let ?missing = "filter
      (\<lambda>email. normalize_email (unicode W) email
         \<notin> dom (build_index (unicode W) (columns csv_data) (frame_rows csv_data) Map.empty))
      (collect_emails email_col_index data_rows)"
  have r: "not_found_emails r = take 50 ?missing" "not_found_count r = int (length ?missing)"
    using write_back_Inr [OF wb] e by (simp_all add: unmatched_eq)
  then have "length (not_found_emails r) \<le> 50"
    by simp
  with rd ld r e show ?thesis by blast
qed

lemma unlisted_read_emails:
  "0 < n \<Longrightarrow>
   read_emails (example_world (unlisted_sheet n) scenario_frame) [0x41, 0x42, 0x43, 0x31, 0x32, 0x33] =
     Inr ([[0x65, 0x6D, 0x61, 0x69, 0x6C]],
          replicate n [[0x62, 0x40, 0x78, 0x2E, 0x63, 0x6F, 0x6D]], 0,
          replicate n [0x62, 0x40, 0x78, 0x2E, 0x63, 0x6F, 0x6D])"
proof -
  have col: "find_email_column py [[0x65, 0x6D, 0x61, 0x69, 0x6C]] = 0"
    by (simp add: find_email_column_def alias_hit_def EMAIL_COLUMN_PATTERNS_def py_def lower_cp_def
        strip_def isspace_def sublist_code)
  assume "0 < n"
  then show ?thesis
    by (simp add: read_emails_def example_world_simps extract_ABC123 unlisted_sheet_def col
        collect_emails_def has_email_def)
qed

lemma unlisted_unmatched:
  "unmatched py (build_index py (columns scenario_frame) (frame_rows scenario_frame) Map.empty)
     (replicate n [0x62, 0x40, 0x78, 0x2E, 0x63, 0x6F, 0x6D])
   = replicate n [0x62, 0x40, 0x78, 0x2E, 0x63, 0x6F, 0x6D]"
  by (simp add: unmatched_def lookup_routes_def scenario_index normalize_email_py strip_def
      isspace_def nfkc_cp_def lower_cp_def)

theorem not_found_emails_truncated_witness:
  "\<exists>r ws. process_data (example_world (unlisted_sheet 51) scenario_frame)
             [0x41, 0x42, 0x43, 0x31, 0x32, 0x33] ''csv'' = (Inr r, ws)
          \<and> not_found_count r = 51
          \<and> not_found_emails r = replicate 50 [0x62, 0x40, 0x78, 0x2E, 0x63, 0x6F, 0x6D]
          \<and> length (not_found_emails r) \<le> 50"
proof -
  let ?W = "example_world (unlisted_sheet 51) scenario_frame"
  let ?b = "[0x62, 0x40, 0x78, 0x2E, 0x63, 0x6F, 0x6D] :: pystr"
  have rd: "read_emails ?W [0x41, 0x42, 0x43, 0x31, 0x32, 0x33] =
      Inr ([[0x65, 0x6D, 0x61, 0x69, 0x6C]], replicate 51 [?b], 0, replicate 51 ?b)"
    by (rule unlisted_read_emails) simp
  have ld: "load_csv ?W ''csv'' = Inr scenario_frame"
    by (rule scenario_load_csv) (simp add: example_world_simps)
  from write_back_no_failure [of ?W "[[0x65, 0x6D, 0x61, 0x69, 0x6C]]" "replicate 51 [?b]" 0
      "replicate 51 ?b" scenario_frame]
  obtain ws where wb: "write_back ?W [[0x65, 0x6D, 0x61, 0x69, 0x6C]] (replicate 51 [?b]) 0
      (replicate 51 ?b) scenario_frame =
      (Inr \<lparr> success = True, total_count = 51, success_count = 0, not_found_count = 51,
             not_found_emails = replicate 50 ?b \<rparr>, ws)"
    by (auto simp: example_world_simps unlisted_unmatched)
  have run: "process_data ?W [0x41, 0x42, 0x43, 0x31, 0x32, 0x33] ''csv'' =
      (Inr \<lparr> success = True, total_count = 51, success_count = 0, not_found_count = 51,
             not_found_emails = replicate 50 ?b \<rparr>, ws)"
    using rd ld wb by (simp add: process_data_def)
  from not_found_emails_truncated [OF run] run show ?thesis
    by auto
qed

subsection \<open>A missing CSV column\<close>

lemma sublist_missing_column_message: "sublist column (missing_column_message column)"
  unfolding missing_column_message_def by (rule sublist_appendI)

text \<open>
  C3.  When the uploaded bytes decode to a table that lacks the column \<^verbatim>\<open><meeruadoresu>\<close>
  or the column \<^verbatim>\<open><touroku keiro>\<close>, \<open>process_data\<close> ends in an exception and carries out no
  spreadsheet update, neither of the header cell nor of the data range; and when the
  run gets as far as decoding the CSV (the spreadsheet was read and holds emails), the
  exception is the program's own and its message contains the name of a missing column.
\<close>

theorem missing_csv_column_raises_before_any_update:
  assumes "decode_csv W csv_content = Frame csv_data"
    and "UTAGE_EMAIL_COLUMN \<notin> set (columns csv_data) \<or> UTAGE_ROUTE_COLUMN \<notin> set (columns csv_data)"
  shows "(\<exists>e. process_data W spreadsheet_url csv_content = (Inl e, []))
       \<and> (\<forall>x. read_emails W spreadsheet_url = Inr x \<longrightarrow>
            (\<exists>column. (column = UTAGE_EMAIL_COLUMN \<or> column = UTAGE_ROUTE_COLUMN)
               \<and> column \<notin> set (columns csv_data)
               \<and> sublist column (missing_column_message column)
               \<and> process_data W spreadsheet_url csv_content
                   = (Inl (Exception (missing_column_message column)), [])))"
proof -
  have "\<exists>column. (column = UTAGE_EMAIL_COLUMN \<or> column = UTAGE_ROUTE_COLUMN)
      \<and> column \<notin> set (columns csv_data)
      \<and> load_csv W csv_content = Inl (Exception (missing_column_message column))"
  proof (cases "UTAGE_EMAIL_COLUMN \<notin> set (columns csv_data)")
    case True
    then show ?thesis
      using assms(1) by (intro exI [of _ UTAGE_EMAIL_COLUMN]) (simp add: load_csv_def)
  next
    case False
    with assms(2) have "UTAGE_ROUTE_COLUMN \<notin> set (columns csv_data)"
      by simp
    with False show ?thesis
      using assms(1) by (intro exI [of _ UTAGE_ROUTE_COLUMN]) (simp add: load_csv_def)
  qed
  then obtain column where col: "column = UTAGE_EMAIL_COLUMN \<or> column = UTAGE_ROUTE_COLUMN"
    "column \<notin> set (columns csv_data)"
    and ld: "load_csv W csv_content = Inl (Exception (missing_column_message column))"
    by blast
  have reached: "process_data W spreadsheet_url csv_content
      = (Inl (Exception (missing_column_message column)), [])"
    if "read_emails W spreadsheet_url = Inr x" for x
    using that ld by (simp add: process_data_def split: prod.splits)
  have "\<exists>e. process_data W spreadsheet_url csv_content = (Inl e, [])"
  proof (cases "read_emails W spreadsheet_url")
    case (Inl e)
    then show ?thesis by (simp add: process_data_def)
  next
    case (Inr x)
    with reached show ?thesis by blast
  qed
  with col reached sublist_missing_column_message show ?thesis
    by blast
qed

theorem missing_csv_column_raises_before_any_update_witness:
  "UTAGE_ROUTE_COLUMN \<notin> set (columns frame_without_route)
   \<and> process_data (example_world scenario_sheet frame_without_route)
       [0x41, 0x42, 0x43, 0x31, 0x32, 0x33] ''csv''
     = (Inl (Exception (missing_column_message UTAGE_ROUTE_COLUMN)), [])"
proof -
  let ?W = "example_world scenario_sheet frame_without_route"
  have d: "decode_csv ?W ''csv'' = Frame frame_without_route"
    by (simp add: example_world_simps)
  have has: "UTAGE_EMAIL_COLUMN \<in> set (columns frame_without_route)"
    by (simp add: frame_without_route_def)
  have m: "UTAGE_ROUTE_COLUMN \<notin> set (columns frame_without_route)"
    by (simp add: frame_without_route_def UTAGE_EMAIL_COLUMN_def UTAGE_ROUTE_COLUMN_def)
  have rd: "read_emails ?W [0x41, 0x42, 0x43, 0x31, 0x32, 0x33] =
     Inr (hd scenario_sheet, tl scenario_sheet, 1,
          [[0x61, 0x40, 0x78, 0x2E, 0x63, 0x6F, 0x6D], [0x62, 0x40, 0x78, 0x2E, 0x63, 0x6F, 0x6D]])"
    by (rule scenario_read_emails) (simp_all add: example_world_simps extract_ABC123)
  from missing_csv_column_raises_before_any_update [of ?W "''csv''" frame_without_route
      "[0x41, 0x42, 0x43, 0x31, 0x32, 0x33]"] d m rd has
  have "process_data ?W [0x41, 0x42, 0x43, 0x31, 0x32, 0x33] ''csv''
     = (Inl (Exception (missing_column_message UTAGE_ROUTE_COLUMN)), [])"
    by auto
  with m show ?thesis by blast
qed

subsection \<open>The CSV index\<close>

text \<open>
  C2.  The index loop skips a row only when \<open>str\<close> of its email cell is empty.  An empty
  field of the CSV is read by pandas as the missing value \<open>NaN\<close>, and \<open>str(NaN)\<close> is
  \<^verbatim>\<open>"nan"\<close>: the row with the fields \<^verbatim>\<open>("", "R1")\<close> is not skipped but indexed under the
  key \<^verbatim>\<open>"nan"\<close>.  (The rows \<^verbatim>\<open>("a@x.com", "R1")\<close> and \<^verbatim>\<open>("A@X.COM", "R1")\<close> do yield the one
  route \<^verbatim>\<open>"R1"\<close> under \<^verbatim>\<open>"a@x.com"\<close>.)
\<close>

theorem empty_email_cell_indexed_as_nan:
  "build_index py [UTAGE_EMAIL_COLUMN, UTAGE_ROUTE_COLUMN]
     [[read_field [], read_field [0x52, 0x31]]] Map.empty
   = [[0x6E, 0x61, 0x6E] \<mapsto> [[0x52, 0x31]]]
   \<and> build_index py [UTAGE_EMAIL_COLUMN, UTAGE_ROUTE_COLUMN]
     [[Str [0x61, 0x40, 0x78, 0x2E, 0x63, 0x6F, 0x6D], Str [0x52, 0x31]],
      [Str [0x41, 0x40, 0x58, 0x2E, 0x43, 0x4F, 0x4D], Str [0x52, 0x31]]] Map.empty
   = [normalize_email py [0x61, 0x40, 0x78, 0x2E, 0x63, 0x6F, 0x6D] \<mapsto> [[0x52, 0x31]]]"
  by (simp add: read_field_def row_get_def py_str_def UTAGE_EMAIL_COLUMN_def
      UTAGE_ROUTE_COLUMN_def normalize_email_py strip_def isspace_def nfkc_cp_def lower_cp_def)

section \<open>The POST handler: proofs\<close>

lemma rstrip_decomp: "\<exists>dropped. b = rstrip chars b @ dropped \<and> set dropped \<subseteq> set chars"
proof -
  let ?P = "\<lambda>c. c \<in> set chars"
  have "rev b = takeWhile ?P (rev b) @ dropWhile ?P (rev b)"
    by simp
  then have "b = rev (dropWhile ?P (rev b)) @ rev (takeWhile ?P (rev b))"
    by (metis rev_append rev_rev_ident)
  moreover have "set (rev (takeWhile ?P (rev b))) \<subseteq> set chars"
    by (auto dest: set_takeWhileD)
  ultimately show ?thesis
    unfolding rstrip_def by blast
qed

lemma rstrip_last: "rstrip chars b \<noteq> [] \<Longrightarrow> last (rstrip chars b) \<notin> set chars"
proof -
  let ?d = "dropWhile (\<lambda>c. c \<in> set chars) (rev b)"
  assume "rstrip chars b \<noteq> []"
  then have ne: "?d \<noteq> []"
    by (simp add: rstrip_def)
  then have "hd ?d \<notin> set chars"
    using hd_dropWhile [of "\<lambda>c. c \<in> set chars" "rev b"] by simp
  moreover have "last (rstrip chars b) = hd ?d"
    using ne by (simp add: rstrip_def last_rev)
  ultimately show ?thesis by simp
qed

lemma split_first_from_Some:
  "split_first_from sep cur s = Some (h, t) \<Longrightarrow> rev cur @ s = h @ sep @ t"
proof (induction s arbitrary: cur)
  case Nil
  then show ?case by simp
next
  case (Cons c cs)
  show ?case
  proof (cases "sep \<noteq> [] \<and> prefix sep (c # cs)")
    case True
    with Cons.prems have h: "h = rev cur" and t: "t = drop (length sep) (c # cs)"
      by simp_all
    from True have "c # cs = sep @ drop (length sep) (c # cs)"
      by (auto simp: prefix_def)
    with h t show ?thesis by simp
  next
    case False
    with Cons.prems have "split_first_from sep (c # cur) cs = Some (h, t)"
      by auto
    from Cons.IH [OF this] show ?thesis by simp
  qed
qed

lemma split_once_Some: "split_once sep s = Some (h, t) \<Longrightarrow> s = h @ sep @ t"
  using split_first_from_Some [of sep "[]" s h t] by (simp add: split_once_def)

lemma scan_parts_csv:
  assumes "scan_parts decode parts url csv = Inr (url', Some csv_content)"
  shows "csv = Some csv_content
       \<or> (\<exists>part \<in> set parts. \<exists>head content.
             sublist NAME_CSV_FILE part \<and> \<not> sublist NAME_SPREADSHEET_URL part
             \<and> split_once BLANK_LINE part = Some (head, content)
             \<and> csv_content = rstrip TRAILER content)"
  using assms
proof (induction parts arbitrary: url csv)
  case Nil
  then show ?case by simp
next
  case (Cons part rest)
  show ?case
  proof (cases "sublist NAME_SPREADSHEET_URL part")
    case True
    with Cons.prems obtain url2 where "scan_parts decode rest url2 csv = Inr (url', Some csv_content)"
      by (auto split: option.splits)
    from Cons.IH [OF this] show ?thesis by auto
  next
    case no_url: False
    show ?thesis
    proof (cases "sublist NAME_CSV_FILE part")
      case True
      show ?thesis
      proof (cases "split_once BLANK_LINE part")
        case None
        with Cons.prems True no_url have "scan_parts decode rest url csv = Inr (url', Some csv_content)"
          by simp
        from Cons.IH [OF this] show ?thesis by auto
      next
        case (Some p)
        obtain head content where p: "p = (head, content)"
          by (cases p)
        with Cons.prems True no_url Some
        have "scan_parts decode rest url (Some (rstrip TRAILER content)) = Inr (url', Some csv_content)"
          by simp
        from Cons.IH [OF this] show ?thesis
          using True no_url Some p by auto
      qed
    next
      case False
      with Cons.prems no_url have "scan_parts decode rest url csv = Inr (url', Some csv_content)"
        by simp
      from Cons.IH [OF this] show ?thesis by auto
    qed
  qed
qed

lemma post_arguments_Inr:
  assumes "post_arguments decode content_type body = Inr (spreadsheet_url, csv_content)"
  shows "\<exists>before second later boundary u.
           split_all BOUNDARY_EQ content_type = before # second # later
           \<and> encode second = Some boundary
           \<and> scan_parts decode (split_all (''--'' @ boundary) body) None None
               = Inr (u, Some csv_content)
           \<and> csv_content \<noteq> []"
  using assms unfolding post_arguments_def
  by (auto split: if_splits list.splits option.splits sum.splits prod.splits)

lemma upload_file_bytes:
  "upload_file =
     [CHR 0xE3, CHR 0x83, CHR 0xA1, CHR 0xE3, CHR 0x83, CHR 0xBC, CHR 0xE3, CHR 0x83, CHR 0xAB,
      CHR 0xE3, CHR 0x82, CHR 0xA2, CHR 0xE3, CHR 0x83, CHR 0x89, CHR 0xE3, CHR 0x83, CHR 0xAC,
      CHR 0xE3, CHR 0x82, CHR 0xB9, CHR '','', CHR 0xE7, CHR 0x99, CHR 0xBB, CHR 0xE9, CHR 0x8C,
      CHR 0xB2, CHR 0xE7, CHR 0xB5, CHR 0x8C, CHR 0xE8, CHR 0xB7, CHR 0xAF, LF]
     @ ''a@x.com,R1'' @ [LF]"
  by (simp add: upload_file_def utf8_cp_def char_of_def bit_Suc_0_iff UTAGE_EMAIL_COLUMN_def
      UTAGE_ROUTE_COLUMN_def LF_def)

lemma upload_arguments:
  "post_arguments decode_ascii upload_content_type (multipart_body ''XYZ'' ''ABC123'' upload_file)
     = Inr ([0x41, 0x42, 0x43, 0x31, 0x32, 0x33], butlast upload_file)"
  by (simp add: post_arguments_def upload_content_type_def MULTIPART_FORM_DATA_def BOUNDARY_EQ_def
      sublist_code split_all_def encode_def utf8_cp_def char_of_def bit_Suc_0_iff multipart_body_def
      upload_file_bytes NAME_SPREADSHEET_URL_def NAME_CSV_FILE_def CR_def LF_def BLANK_LINE_def
      TRAILER_def split_once_def rstrip_def decode_ascii_def)

text \<open>
  C10.  Whenever \<open>do_POST\<close> gets as far as calling \<open>process_data\<close>, the \<open>csv_content\<close> it
  passes is the content of a \<open>csv_file\<close> part (what follows the part's first blank line)
  with every trailing carriage return, line feed and \<^verbatim>\<open>-\<close> removed: the part is
  \<open>head\<close>, the blank line, \<open>csv_content\<close> and a run of such bytes, and \<open>csv_content\<close> is not
  empty and does not end in such a byte.  So there are uploads whose file ends in one of
  these bytes and is passed on cut short: the two-line CSV file \<open>upload_file\<close> ends in a
  line feed, and \<open>process_data\<close> receives it without that last byte.
\<close>

theorem csv_content_is_right_stripped:
  "(post_arguments decode content_type body = Inr (spreadsheet_url, csv_content) \<longrightarrow>
      csv_content \<noteq> [] \<and> last csv_content \<notin> {CR, LF, CHR ''-''}
      \<and> (\<exists>before second later boundary part head dropped.
            split_all BOUNDARY_EQ content_type = before # second # later
            \<and> encode second = Some boundary
            \<and> part \<in> set (split_all (''--'' @ boundary) body)
            \<and> sublist NAME_CSV_FILE part
            \<and> part = head @ BLANK_LINE @ csv_content @ dropped
            \<and> set dropped \<subseteq> {CR, LF, CHR ''-''}))
   \<and> last upload_file = LF
   \<and> post_arguments decode_ascii upload_content_type (multipart_body ''XYZ'' ''ABC123'' upload_file)
       = Inr ([0x41, 0x42, 0x43, 0x31, 0x32, 0x33], butlast upload_file)
   \<and> strict_prefix (butlast upload_file) upload_file"
proof (intro conjI impI)
  assume a: "post_arguments decode content_type body = Inr (spreadsheet_url, csv_content)"
  from post_arguments_Inr [OF a] obtain before second later boundary u where
    sp: "split_all BOUNDARY_EQ content_type = before # second # later"
    and en: "encode second = Some boundary"
    and sc: "scan_parts decode (split_all (''--'' @ boundary) body) None None = Inr (u, Some csv_content)"
    and ne: "csv_content \<noteq> []"
    by blast
  from scan_parts_csv [OF sc] obtain part head content where
    part: "part \<in> set (split_all (''--'' @ boundary) body)" "sublist NAME_CSV_FILE part"
    and so: "split_once BLANK_LINE part = Some (head, content)"
    and csv: "csv_content = rstrip TRAILER content"
    by auto
  have tr: "set TRAILER = {CR, LF, CHR ''-''}"
    by (auto simp: TRAILER_def)
  show "csv_content \<noteq> []"
    by (rule ne)
  show "last csv_content \<notin> {CR, LF, CHR ''-''}"
    using rstrip_last [of TRAILER content] ne csv tr by simp
  obtain dropped where d: "content = csv_content @ dropped" "set dropped \<subseteq> {CR, LF, CHR ''-''}"
    using rstrip_decomp [of content TRAILER] csv tr by auto
  have "part = head @ BLANK_LINE @ csv_content @ dropped"
    using split_once_Some [OF so] d(1) by simp
  with sp en part d(2)
  show "\<exists>before second later boundary part head dropped.
            split_all BOUNDARY_EQ content_type = before # second # later
            \<and> encode second = Some boundary
            \<and> part \<in> set (split_all (''--'' @ boundary) body)
            \<and> sublist NAME_CSV_FILE part
            \<and> part = head @ BLANK_LINE @ csv_content @ dropped
            \<and> set dropped \<subseteq> {CR, LF, CHR ''-''}"
    by blast
next
  show "last upload_file = LF"
    by (simp add: upload_file_bytes)
next
  show "post_arguments decode_ascii upload_content_type (multipart_body ''XYZ'' ''ABC123'' upload_file)
       = Inr ([0x41, 0x42, 0x43, 0x31, 0x32, 0x33], butlast upload_file)"
    by (rule upload_arguments)
next
  have "upload_file \<noteq> []"
    by (simp add: upload_file_bytes)
  then have "upload_file = butlast upload_file @ [last upload_file]"
    by simp
  then show "strict_prefix (butlast upload_file) upload_file"
    by (metis append_Nil2 not_Cons_self2 prefixI same_append_eq strict_prefix_def)
qed

theorem csv_content_is_right_stripped_witness:
  "post_arguments decode_ascii upload_content_type (multipart_body ''XYZ'' ''ABC123'' upload_file)
     = Inr ([0x41, 0x42, 0x43, 0x31, 0x32, 0x33], butlast upload_file)
   \<and> butlast upload_file \<noteq> []
   \<and> last (butlast upload_file) \<notin> {CR, LF, CHR ''-''}"
  using csv_content_is_right_stripped [of decode_ascii upload_content_type
      "multipart_body ''XYZ'' ''ABC123'' upload_file" "[0x41, 0x42, 0x43, 0x31, 0x32, 0x33]"
      "butlast upload_file"]
  by blast

end
